theory Spec2Isabelle
  imports Main "HOL-Library.Word"
begin

unbundle bit_operations_syntax

section \<open>Values of the Go standard library that mesher.go uses\<close>

type_synonym byte = "8 word"

text \<open>A byte slice \<^verbatim>\<open>[]byte\<close>, by value; the nil slice and the empty slice are both \<open>[]\<close>.\<close>
type_synonym bytes = "byte list"

text \<open>
  \<^verbatim>\<open>net.UDPAddr\<close> is \<^verbatim>\<open>struct { IP IP; Port int; Zone string }\<close>, with \<^verbatim>\<open>IP\<close> a byte
  slice. The program passes \<^verbatim>\<open>*net.UDPAddr\<close>: a pointer, \<open>None\<close> for nil.
\<close>
record UDPAddr =
  IP :: bytes
  Port :: int
  Zone :: string

text \<open>
  \<^verbatim>\<open>netip.Addr\<close>: the zero value (no address), an IPv4 address of 4 bytes, or an IPv6
  address of 16 bytes with its zone (the empty string when it has none).
\<close>
datatype netip_Addr = Addr_zero | Addr_v4 bytes | Addr_v6 bytes string

text \<open>
  \<^verbatim>\<open>netip.AddrFromSlice\<close>: a slice of 4 bytes is an IPv4 address, a slice of 16 bytes an
  IPv6 address (an IPv4-mapped one stays IPv6); any other length gives the zero value
  and \<^verbatim>\<open>ok = false\<close>.
\<close>
definition AddrFromSlice :: "bytes \<Rightarrow> netip_Addr \<times> bool" where
  "AddrFromSlice sl =
     (if length sl = 4 then (Addr_v4 sl, True)
      else if length sl = 16 then (Addr_v6 sl [], True)
      else (Addr_zero, False))"

text \<open>\<^verbatim>\<open>Addr.WithZone\<close>: sets the zone of an IPv6 address, and is a no-op on any other.\<close>
definition WithZone :: "netip_Addr \<Rightarrow> string \<Rightarrow> netip_Addr" where
  "WithZone ip zone = (case ip of Addr_v6 b z \<Rightarrow> Addr_v6 b zone | _ \<Rightarrow> ip)"

text \<open>\<^verbatim>\<open>Addr.Zone\<close>: the zone of an IPv6 address, empty for any other.\<close>
definition Addr_Zone :: "netip_Addr \<Rightarrow> string" where
  "Addr_Zone ip = (case ip of Addr_v6 b z \<Rightarrow> z | _ \<Rightarrow> [])"

text \<open>The 12 bytes \<^verbatim>\<open>00 .. 00 ff ff\<close> that precede an IPv4 address in its IPv6 form.\<close>
definition v4InV6Prefix :: bytes where
  "v4InV6Prefix = [0, 0, 0, 0, 0, 0, 0, 0, 0, 0, 0xff, 0xff]"

text \<open>
  \<^verbatim>\<open>Addr.As16\<close>: the 16-byte form. An IPv4 address comes back IPv4-mapped, an IPv6
  address without its zone, the zero value as 16 zero bytes.
\<close>
definition As16 :: "netip_Addr \<Rightarrow> bytes" where
  "As16 ip =
     (case ip of
        Addr_zero \<Rightarrow> [0, 0, 0, 0, 0, 0, 0, 0, 0, 0, 0, 0, 0, 0, 0, 0]
      | Addr_v4 b \<Rightarrow> v4InV6Prefix @ b
      | Addr_v6 b z \<Rightarrow> b)"

text \<open>\<^verbatim>\<open>Addr.AsSlice\<close>: nil for the zero value, else the 4 or the 16 bytes.\<close>
definition AsSlice :: "netip_Addr \<Rightarrow> bytes" where
  "AsSlice ip = (case ip of Addr_zero \<Rightarrow> [] | Addr_v4 b \<Rightarrow> b | Addr_v6 b z \<Rightarrow> b)"

text \<open>\<^verbatim>\<open>netip.AddrPort\<close>: an address and a 16-bit port.\<close>
record AddrPort =
  Addr :: netip_Addr
  AddrPort_Port :: "16 word"

definition AddrPortFrom :: "netip_Addr \<Rightarrow> 16 word \<Rightarrow> AddrPort" where
  "AddrPortFrom ip port = \<lparr>Addr = ip, AddrPort_Port = port\<rparr>"

text \<open>
  \<^verbatim>\<open>(*UDPAddr).AddrPort\<close>: the zero \<^verbatim>\<open>AddrPort\<close> for a nil pointer; otherwise the IP
  through \<^verbatim>\<open>AddrFromSlice\<close> (its \<^verbatim>\<open>ok\<close> dropped), with the zone, and the port truncated
  to 16 bits.
\<close>
definition UDPAddr_AddrPort :: "UDPAddr option \<Rightarrow> AddrPort" where
  "UDPAddr_AddrPort a =
     (case a of
        None \<Rightarrow> AddrPortFrom Addr_zero 0
      | Some u \<Rightarrow>
          AddrPortFrom (WithZone (fst (AddrFromSlice (IP u))) (Zone u)) (word_of_int (Port u)))"

text \<open>\<^verbatim>\<open>net.UDPAddrFromAddrPort\<close>: always a non-nil pointer.\<close>
definition UDPAddrFromAddrPort :: "AddrPort \<Rightarrow> UDPAddr option" where
  "UDPAddrFromAddrPort addr =
     Some \<lparr>IP = AsSlice (Addr addr), Port = uint (AddrPort_Port addr),
           Zone = Addr_Zone (Addr addr)\<rparr>"

text \<open>
  \<^verbatim>\<open>binary.BigEndian.PutUint16(b, v)\<close> stores \<^verbatim>\<open>byte(v >> 8)\<close> in \<^verbatim>\<open>b[0]\<close> and \<^verbatim>\<open>byte(v)\<close>
  in \<^verbatim>\<open>b[1]\<close>; \<^verbatim>\<open>Uint16(b)\<close> reads \<^verbatim>\<open>uint16(b[1]) | uint16(b[0])<<8\<close>. Both check
  \<^verbatim>\<open>len(b) >= 2\<close> and panic otherwise; the program calls them on \<^verbatim>\<open>a[16:]\<close> of an
  18-byte array only, a slice whose length is 2 by its type (\<open>length_port_slice\<close> below).
\<close>
definition PutUint16 :: "bytes \<Rightarrow> 16 word \<Rightarrow> bytes" where
  "PutUint16 b v = ucast (drop_bit 8 v) # ucast v # drop 2 b"

definition Uint16 :: "bytes \<Rightarrow> 16 word" where
  "Uint16 b = ucast (b ! 1) OR push_bit 8 (ucast (b ! 0))"

text \<open>
  The builtin \<^verbatim>\<open>copy(dst, src)\<close>: the first \<open>min (len dst) (len src)\<close> elements of
  \<open>dst\<close> are overwritten with those of \<open>src\<close>; the result is \<open>dst\<close> afterwards.
\<close>
definition copy :: "'a list \<Rightarrow> 'a list \<Rightarrow> 'a list" where
  "copy dst src =
     take (min (length dst) (length src)) src @ drop (min (length dst) (length src)) dst"

section \<open>General: addresses\<close>

text \<open>\<^verbatim>\<open>type address [18]byte\<close>: an array of exactly 18 bytes.\<close>
typedef address = "{xs :: byte list. length xs = 18}"
  by (rule exI [of _ "replicate 18 0"]) simp

text \<open>
  \<^verbatim>\<open>addrKey\<close>. \<^verbatim>\<open>var a address\<close> is 18 zero bytes; \<^verbatim>\<open>copy(a[:16], ip[:])\<close> writes its
  first 16 bytes and \<^verbatim>\<open>PutUint16(a[16:], port)\<close> its last two.
\<close>
definition addrKey_bytes :: "UDPAddr option \<Rightarrow> bytes" where
  "addrKey_bytes addr =
     (let a = replicate 18 0;
          ip = As16 (Addr (UDPAddr_AddrPort addr));
          port = AddrPort_Port (UDPAddr_AddrPort addr);
          a = copy (take 16 a) ip @ drop 16 a;
          a = take 16 a @ PutUint16 (drop 16 a) port
      in a)"

definition addrKey :: "UDPAddr option \<Rightarrow> address" where
  "addrKey addr = Abs_address (addrKey_bytes addr)"

text \<open>\<^verbatim>\<open>addrFromKey\<close>; \<open>None\<close> is the nil pointer of the \<^verbatim>\<open>!ok\<close> branch.\<close>
definition addrFromKey :: "address \<Rightarrow> UDPAddr option" where
  "addrFromKey a =
     (case AddrFromSlice (take 16 (Rep_address a)) of
        (ip, ok) \<Rightarrow>
          if \<not> ok then None
          else let port = Uint16 (drop 16 (Rep_address a));
                   addr = AddrPortFrom ip port
               in UDPAddrFromAddrPort addr)"

section \<open>General: requests, responses and the seven messages\<close>

text \<open>\<^verbatim>\<open>type request struct { from *net.UDPAddr; buffer []byte }\<close>.\<close>
record request =
  request_from :: "UDPAddr option"
  request_buffer :: bytes

text \<open>
  The seven message types registered with gob. Two of them have the method
  \<^verbatim>\<open>updateServer\<close> (the interface \<^verbatim>\<open>serverRequest\<close>), the other five the method
  \<^verbatim>\<open>updatePeer\<close> (the interface \<^verbatim>\<open>peerRequest\<close>). The type \<open>'d\<close> stands for a payload
  \<^verbatim>\<open>Data []byte\<close>: the bytes themselves where only the content matters, a reference
  to a buffer where a claim is about copies. No handler looks into a payload.
\<close>
datatype 'd serverRequest =
    getPeerList
  | dataRelayTo address 'd

datatype 'd peerRequest =
    peerList "address list"
  | keepAlive
  | isAlive
  | dataRelayedFrom address 'd
  | dataDirect 'd

text \<open>The field \<^verbatim>\<open>m interface{}\<close> of a response holds one of the seven.\<close>
datatype 'd message =
    ToServer "'d serverRequest"
  | ToPeer "'d peerRequest"

text \<open>\<^verbatim>\<open>type response struct { to *net.UDPAddr; m interface{} }\<close>.\<close>
record 'd response =
  response_to :: "UDPAddr option"
  response_m :: "'d message"

text \<open>\<^verbatim>\<open>type PeerMsg struct { PeerId int; Buf []byte }\<close>.\<close>
record 'd PeerMsg =
  PeerId :: int
  Buf :: 'd

text \<open>
  What \<^verbatim>\<open>v, ok := <-ch\<close> yields: a value, or \<^verbatim>\<open>ok = false\<close> once the channel is closed.
\<close>
datatype 'a received = Value 'a | Closed

text \<open>
  A channel the goroutine writes to is the list of the values it has sent, oldest first.
  The lines of \<^verbatim>\<open>log.Println\<close> are kept by their fixed first words.
\<close>
type_synonym log = "string list"

section \<open>General: the writer\<close>

text \<open>
  How the writer goroutine ends: the \<^verbatim>\<open>done\<close> signal after \<^verbatim>\<open>out\<close> is closed, or
  \<^verbatim>\<open>log.Fatal("encode:", err)\<close>, which exits the process.
\<close>
datatype writer_end = Done | Fatal string

text \<open>
  \<^verbatim>\<open>writer\<close>, over the values \<^verbatim>\<open>out\<close> delivers before it is closed. The gob encoder is the
  parameter \<open>Encode\<close> (an error is \<open>Inl\<close>), the socket the state \<open>conn\<close> with the
  parameter \<open>WriteToUDP\<close>, whose error result the code drops.
\<close>
fun writer ::
  "('d message \<Rightarrow> string + bytes) \<Rightarrow> ('c \<Rightarrow> bytes \<Rightarrow> UDPAddr \<Rightarrow> 'c \<times> string option) \<Rightarrow>
   'c \<Rightarrow> 'd response list \<Rightarrow> 'c \<times> writer_end" where
  "writer Encode WriteToUDP conn [] = (conn, Done)"
| "writer Encode WriteToUDP conn (m # out) =
     (case response_to m of
        None \<Rightarrow> writer Encode WriteToUDP conn out
      | Some to \<Rightarrow>
          (case Encode (response_m m) of
             Inl err \<Rightarrow> (conn, Fatal err)
           | Inr b \<Rightarrow> writer Encode WriteToUDP (fst (WriteToUDP conn b to)) out))"

section \<open>Server\<close>

text \<open>\<^verbatim>\<open>type server struct { peers map[address]struct{} }\<close>: a set of keys.\<close>
record server =
  peers :: "address set"

text \<open>
  \<^verbatim>\<open>getPeerList.updateServer\<close>. The list \<open>ks\<close> is the sequence of keys that
  \<^verbatim>\<open>for k, _ := range s.peers\<close> yields: Go leaves the order open and yields each key of
  the map once. The result is the server afterwards, the values sent on \<^verbatim>\<open>replies\<close>
  and the lines logged.
\<close>
definition getPeerList_updateServer ::
  "address list \<Rightarrow> server \<Rightarrow> UDPAddr option \<Rightarrow> server \<times> 'd response list \<times> log" where
  "getPeerList_updateServer ks s frm =
     (let a = addrKey frm;
          s = s\<lparr>peers := insert a (peers s)\<rparr>;
          reply = filter (\<lambda>k. k \<noteq> a) ks
      in (s, [\<lparr>response_to = frm, response_m = ToPeer (peerList reply)\<rparr>],
          [''getPeerList from'']))"

text \<open>\<^verbatim>\<open>dataRelayTo.updateServer\<close>, for \<^verbatim>\<open>m = dataRelayTo{To, Data}\<close>.\<close>
definition dataRelayTo_updateServer ::
  "address \<Rightarrow> 'd \<Rightarrow> server \<Rightarrow> UDPAddr option \<Rightarrow> server \<times> 'd response list \<times> log" where
  "dataRelayTo_updateServer To Data s frm =
     (if To \<in> peers s
      then (s, [\<lparr>response_to = addrFromKey To,
                  response_m = ToPeer (dataRelayedFrom (addrKey frm) Data)\<rparr>],
            [''dataRelayTo from''])
      else (s, [], [''dataRelayTo from'']))"

text \<open>The call \<^verbatim>\<open>m.updateServer(&s, request.from, responses)\<close> on the interface.\<close>
fun updateServer ::
  "address list \<Rightarrow> 'd serverRequest \<Rightarrow> server \<Rightarrow> UDPAddr option \<Rightarrow>
   server \<times> 'd response list \<times> log" where
  "updateServer ks getPeerList s frm = getPeerList_updateServer ks s frm"
| "updateServer ks (dataRelayTo To Data) s frm = dataRelayTo_updateServer To Data s frm"

text \<open>
  The state of the goroutine of \<^verbatim>\<open>meshServer\<close>: its server, what it has sent on \<^verbatim>\<open>seen\<close>
  and on \<^verbatim>\<open>responses\<close>, which of its channels it has set to nil or closed, its log, and
  whether it has panicked.
\<close>
record 'd meshServer_state =
  sv_s :: server
  sv_seen :: "UDPAddr option list"
  sv_seen_closed :: bool
  sv_responses :: "'d response list"
  sv_timeout_nil :: bool
  sv_requests_nil :: bool
  sv_log :: log
  sv_panic :: bool

text \<open>The state before the loop.\<close>
definition meshServer_init :: "'d meshServer_state" where
  "meshServer_init =
     \<lparr>sv_s = \<lparr>peers = {}\<rparr>, sv_seen = [], sv_seen_closed = False, sv_responses = [],
      sv_timeout_nil = False, sv_requests_nil = False, sv_log = [], sv_panic = False\<rparr>"

text \<open>The branch \<^verbatim>\<open>case a, ok := <-timeout\<close> of the loop.\<close>
fun meshServer_timeout ::
  "UDPAddr option received \<Rightarrow> 'd meshServer_state \<Rightarrow> 'd meshServer_state" where
  "meshServer_timeout Closed st =
     st\<lparr>sv_timeout_nil := True, sv_log := sv_log st @ [''timeout-channel closed'']\<rparr>"
| "meshServer_timeout (Value a) st =
     st\<lparr>sv_s := (sv_s st)\<lparr>peers := peers (sv_s st) - {addrKey a}\<rparr>\<rparr>"

text \<open>
  The branch \<^verbatim>\<open>case request, ok := <-requests\<close> of the loop. The gob decoder, reading
  into \<^verbatim>\<open>var m serverRequest\<close>, is the parameter \<open>Decode\<close>: an error is \<open>Inl\<close>, and
  \<open>Inr None\<close> is a decoding without error that leaves \<open>m\<close> nil, on which the method call
  panics.
\<close>
fun meshServer_request ::
  "(bytes \<Rightarrow> string + 'd serverRequest option) \<Rightarrow> address list \<Rightarrow> request received \<Rightarrow>
   'd meshServer_state \<Rightarrow> 'd meshServer_state" where
  "meshServer_request Decode ks Closed st =
     st\<lparr>sv_requests_nil := True, sv_seen_closed := True,
        sv_log := sv_log st @ [''requests-channel closed. Closing seen-channel'']\<rparr>"
| "meshServer_request Decode ks (Value rq) st =
     (case Decode (request_buffer rq) of
        Inl err \<Rightarrow> st\<lparr>sv_log := sv_log st @ [''ignoring'']\<rparr>
      | Inr None \<Rightarrow> st\<lparr>sv_seen := sv_seen st @ [request_from rq], sv_panic := True\<rparr>
      | Inr (Some m) \<Rightarrow>
          (case updateServer ks m (sv_s st) (request_from rq) of
             (s, replies, lg) \<Rightarrow>
               st\<lparr>sv_seen := sv_seen st @ [request_from rq],
                  sv_s := s,
                  sv_responses := sv_responses st @ replies,
                  sv_log := sv_log st @ lg\<rparr>))"

section \<open>Peer\<close>

text \<open>
  A Go \<^verbatim>\<open>int\<close> is 64 bits wide on a 64-bit platform; an arithmetic result wraps
  around into the range from \<open>- 2 ^ 63\<close> to \<open>2 ^ 63 - 1\<close>.
\<close>
definition go_int :: "int \<Rightarrow> int" where
  "go_int x = (x + 2 ^ 63) mod 2 ^ 64 - 2 ^ 63"

text \<open>
  \<^verbatim>\<open>type peer struct\<close>: the two maps, the counter, and the channel \<^verbatim>\<open>seenPeerAlive\<close> as
  the list of what was sent on it.
\<close>
record peer =
  peerIds :: "address \<rightharpoonup> int"
  nextPeerId :: int
  alivePeers :: "address set"
  seenPeerAlive :: "UDPAddr option list"

text \<open>
  The loop of \<^verbatim>\<open>peerList.updatePeer\<close> over \<^verbatim>\<open>m.Addresses\<close>: it reads \<^verbatim>\<open>p.peerIds\<close>, counts
  \<^verbatim>\<open>p.nextPeerId\<close> up and fills \<^verbatim>\<open>knownPeerIds\<close>.
\<close>
fun peerList_loop :: "peer \<Rightarrow> address list \<Rightarrow> (address \<rightharpoonup> int) \<Rightarrow> peer \<times> (address \<rightharpoonup> int)" where
  "peerList_loop p [] knownPeerIds = (p, knownPeerIds)"
| "peerList_loop p (a # Addresses) knownPeerIds =
     (case peerIds p a of
        Some pid \<Rightarrow> peerList_loop p Addresses (knownPeerIds(a \<mapsto> pid))
      | None \<Rightarrow>
          peerList_loop (p\<lparr>nextPeerId := go_int (nextPeerId p + 1)\<rparr>) Addresses
            (knownPeerIds(a \<mapsto> nextPeerId p)))"

text \<open>\<^verbatim>\<open>peerList.updatePeer\<close>: the loop, then \<^verbatim>\<open>p.peerIds = knownPeerIds\<close>.\<close>
definition peerList_updatePeer :: "address list \<Rightarrow> peer \<Rightarrow> peer" where
  "peerList_updatePeer Addresses p =
     (case peerList_loop p Addresses Map.empty of
        (p, knownPeerIds) \<Rightarrow> p\<lparr>peerIds := knownPeerIds\<rparr>)"

text \<open>
  The call \<^verbatim>\<open>m.updatePeer(&p, request.from, responses, data)\<close> on the interface, one
  equation per method. The result is the peer afterwards, the values sent on
  \<^verbatim>\<open>replies\<close> and on \<^verbatim>\<open>data\<close>, and the lines logged.
\<close>
fun updatePeer ::
  "'d peerRequest \<Rightarrow> peer \<Rightarrow> UDPAddr option \<Rightarrow>
   peer \<times> 'd response list \<times> 'd PeerMsg list \<times> log" where
  "updatePeer (peerList Addresses) p frm = (peerList_updatePeer Addresses p, [], [], [])"
| "updatePeer keepAlive p frm =
     (p, [\<lparr>response_to = frm, response_m = ToPeer isAlive\<rparr>], [], [])"
| "updatePeer isAlive p frm =
     (p\<lparr>alivePeers := insert (addrKey frm) (alivePeers p),
        seenPeerAlive := seenPeerAlive p @ [frm]\<rparr>, [], [], [])"
| "updatePeer (dataRelayedFrom From Data) p frm =
     (case peerIds p From of
        None \<Rightarrow> (p, [], [], [''dataRelayedFrom unknown Peer, ignoring it''])
      | Some pid \<Rightarrow> (p, [], [\<lparr>PeerId = pid, Buf = Data\<rparr>], []))"
| "updatePeer (dataDirect Data) p frm =
     (case peerIds p (addrKey frm) of
        None \<Rightarrow> (p, [], [], [''dataDirect from'', ''dataDirect from unknown Peer, ignoring it''])
      | Some pid \<Rightarrow> (p, [], [\<lparr>PeerId = pid, Buf = Data\<rparr>], [''dataDirect from'']))"

text \<open>
  The state of the goroutine of \<^verbatim>\<open>meshPeer\<close>: its peer, what it has sent on \<^verbatim>\<open>data\<close>
  and on \<^verbatim>\<open>responses\<close>, which channels it has set to nil or closed, its log, and
  whether it has panicked.
\<close>
record 'd meshPeer_state =
  pr_p :: peer
  pr_data :: "'d PeerMsg list"
  pr_responses :: "'d response list"
  pr_timeout_nil :: bool
  pr_broadcast_nil :: bool
  pr_requests_nil :: bool
  pr_seenPeerAlive_closed :: bool
  pr_log :: log
  pr_panic :: bool

text \<open>The state before the loop.\<close>
definition meshPeer_init :: "'d meshPeer_state" where
  "meshPeer_init =
     \<lparr>pr_p = \<lparr>peerIds = Map.empty, nextPeerId = 0, alivePeers = {}, seenPeerAlive = []\<rparr>,
      pr_data = [], pr_responses = [], pr_timeout_nil = False, pr_broadcast_nil = False,
      pr_requests_nil = False, pr_seenPeerAlive_closed = False, pr_log = [],
      pr_panic = False\<rparr>"

text \<open>
  The branch \<^verbatim>\<open>case <-ticker\<close>; \<open>ks\<close> is the sequence of keys that
  \<^verbatim>\<open>range p.peerIds\<close> yields.
\<close>
definition meshPeer_ticker ::
  "UDPAddr option \<Rightarrow> address list \<Rightarrow> 'd meshPeer_state \<Rightarrow> 'd meshPeer_state" where
  "meshPeer_ticker serverAddressUdp ks st =
     st\<lparr>pr_responses := pr_responses st
          @ [\<lparr>response_to = serverAddressUdp, response_m = ToServer getPeerList\<rparr>]
          @ map (\<lambda>addr. \<lparr>response_to = addrFromKey addr, response_m = ToPeer keepAlive\<rparr>) ks,
        pr_log := pr_log st @ map (\<lambda>addr. ''Sending keep alive'') ks\<rparr>"

text \<open>The branch \<^verbatim>\<open>case a, ok := <-timeout\<close>.\<close>
fun meshPeer_timeout ::
  "UDPAddr option received \<Rightarrow> 'd meshPeer_state \<Rightarrow> 'd meshPeer_state" where
  "meshPeer_timeout Closed st =
     st\<lparr>pr_timeout_nil := True, pr_log := pr_log st @ [''timeout-channel closed'']\<rparr>"
| "meshPeer_timeout (Value a) st =
     st\<lparr>pr_p := (pr_p st)\<lparr>alivePeers := alivePeers (pr_p st) - {addrKey a}\<rparr>,
        pr_log := pr_log st @ [''Peer timed out'']\<rparr>"

text \<open>
  The memory that holds the byte buffers: buffer \<open>r\<close> is \<open>h ! r\<close>, and a \<^verbatim>\<open>[]byte\<close> is
  the number of its buffer, one that exists (\<open>r < length h\<close>). \<^verbatim>\<open>make([]byte, n)\<close>
  takes a buffer that does not exist yet and fills it with \<open>n\<close> zero bytes;
  \<^verbatim>\<open>copy(cp, buf)\<close> overwrites the buffer of \<open>cp\<close>.
\<close>
type_synonym heap = "bytes list"

definition make :: "nat \<Rightarrow> heap \<Rightarrow> nat \<times> heap" where
  "make n h = (length h, h @ [replicate n 0])"

definition copy_buf :: "nat \<Rightarrow> nat \<Rightarrow> heap \<Rightarrow> heap" where
  "copy_buf dst src h = h[dst := copy (h ! dst) (h ! src)]"

text \<open>
  The loop \<^verbatim>\<open>for addr, _ := range p.peerIds\<close> of the broadcast branch, over the keys
  \<open>ks\<close> that \<^verbatim>\<open>range\<close> yields: the values sent on \<^verbatim>\<open>responses\<close>, and the memory
  afterwards.
\<close>
fun broadcast_loop ::
  "UDPAddr option \<Rightarrow> peer \<Rightarrow> nat \<Rightarrow> address list \<Rightarrow> heap \<Rightarrow> nat response list \<times> heap" where
  "broadcast_loop serverAddressUdp p buf [] h = ([], h)"
| "broadcast_loop serverAddressUdp p buf (addr # ks) h =
     (case make (length (h ! buf)) h of
        (cp, h) \<Rightarrow>
          (let h = copy_buf cp buf h;
               m = (if addr \<in> alivePeers p
                    then \<lparr>response_to = addrFromKey addr, response_m = ToPeer (dataDirect cp)\<rparr>
                    else \<lparr>response_to = serverAddressUdp,
                          response_m = ToServer (dataRelayTo addr cp)\<rparr>)
           in case broadcast_loop serverAddressUdp p buf ks h of
                (ms, h) \<Rightarrow> (m # ms, h)))"

text \<open>The branch \<^verbatim>\<open>case buf, ok := <-broadcast\<close>.\<close>
fun meshPeer_broadcast ::
  "UDPAddr option \<Rightarrow> address list \<Rightarrow> nat received \<Rightarrow> nat meshPeer_state \<times> heap \<Rightarrow>
   nat meshPeer_state \<times> heap" where
  "meshPeer_broadcast serverAddressUdp ks Closed (st, h) =
     (st\<lparr>pr_broadcast_nil := True,
         pr_log := pr_log st @ [''broadcast channel was closed, only reading from now on'']\<rparr>, h)"
| "meshPeer_broadcast serverAddressUdp ks (Value buf) (st, h) =
     (case broadcast_loop serverAddressUdp (pr_p st) buf ks h of
        (ms, h) \<Rightarrow> (st\<lparr>pr_responses := pr_responses st @ ms\<rparr>, h))"

text \<open>
  The branch \<^verbatim>\<open>case request, ok := <-requests\<close>; the gob decoder, reading into
  \<^verbatim>\<open>var m peerRequest\<close>, is the parameter \<open>Decode\<close>, as in the server.
\<close>
fun meshPeer_request ::
  "(bytes \<Rightarrow> string + 'd peerRequest option) \<Rightarrow> request received \<Rightarrow>
   'd meshPeer_state \<Rightarrow> 'd meshPeer_state" where
  "meshPeer_request Decode Closed st =
     st\<lparr>pr_requests_nil := True, pr_seenPeerAlive_closed := True,
        pr_log := pr_log st @ [''requests-channel closed. Closing p.seenPeerAlive-channel'']\<rparr>"
| "meshPeer_request Decode (Value rq) st =
     (case Decode (request_buffer rq) of
        Inl err \<Rightarrow> st\<lparr>pr_log := pr_log st @ [''ignoring'']\<rparr>
      | Inr None \<Rightarrow> st\<lparr>pr_panic := True\<rparr>
      | Inr (Some m) \<Rightarrow>
          (case updatePeer m (pr_p st) (request_from rq) of
             (p, replies, msgs, lg) \<Rightarrow>
               st\<lparr>pr_p := p,
                  pr_responses := pr_responses st @ replies,
                  pr_data := pr_data st @ msgs,
                  pr_log := pr_log st @ lg\<rparr>))"

section \<open>Notions of the specification\<close>

text \<open>
  \<^verbatim>\<open>net.IP.Equal\<close>: the same bytes, or an IPv4 address of 4 bytes and its IPv4-mapped
  form of 16 bytes.
\<close>
definition IP_Equal :: "bytes \<Rightarrow> bytes \<Rightarrow> bool" where
  "IP_Equal ip x =
     (if length ip = length x then ip = x
      else if length ip = 4 \<and> length x = 16 then take 12 x = v4InV6Prefix \<and> ip = drop 12 x
      else if length ip = 16 \<and> length x = 4 then take 12 ip = v4InV6Prefix \<and> drop 12 ip = x
      else False)"

text \<open>
  Two \<^verbatim>\<open>UDPAddr\<close> values denote the same UDP endpoint: the same IP address by
  \<^verbatim>\<open>IP.Equal\<close>, the same port and the same zone.
\<close>
definition same_endpoint :: "UDPAddr \<Rightarrow> UDPAddr \<Rightarrow> bool" where
  "same_endpoint e e' = (IP_Equal (IP e) (IP e') \<and> Port e = Port e' \<and> Zone e = Zone e')"

text \<open>
  An endpoint as a UDP socket reports it without a zone: an IP of 4 or of 16 bytes, a
  port of 16 bits, no zone.
\<close>
definition plain_endpoint :: "UDPAddr \<Rightarrow> bool" where
  "plain_endpoint e =
     ((length (IP e) = 4 \<or> length (IP e) = 16) \<and> 0 \<le> Port e \<and> Port e < 65536 \<and> Zone e = [])"

text \<open>
  The datagrams the writer hands to the socket for a sequence of responses, each with
  its target: one for every response that has a target and an encoding.
\<close>
definition datagrams :: "('d message \<Rightarrow> string + bytes) \<Rightarrow> 'd response list \<Rightarrow> (bytes \<times> UDPAddr) list" where
  "datagrams Encode out =
     concat (map (\<lambda>m. case (response_to m, Encode (response_m m)) of
                          (Some to, Inr b) \<Rightarrow> [(b, to)]
                        | _ \<Rightarrow> []) out)"

text \<open>A response the writer gets past: it has no target, or its message encodes.\<close>
definition encodable :: "('d message \<Rightarrow> string + bytes) \<Rightarrow> 'd response \<Rightarrow> bool" where
  "encodable Encode m = (response_to m = None \<or> (\<exists>b. Encode (response_m m) = Inr b))"

text \<open>
  The ids handed out so far are \<open>0, 1, \<dots>, nextPeerId p - 1\<close>: the counter starts at 0
  and an id is always the value the counter had just before it counted up. What holds of
  a peer the loop can reach while the counter has not wrapped around: the counter is not
  negative and every id in \<^verbatim>\<open>peerIds\<close> is one of those handed out.
\<close>
definition peer_inv :: "peer \<Rightarrow> bool" where
  "peer_inv p =
     (0 \<le> nextPeerId p \<and> (\<forall>a pid. peerIds p a = Some pid \<longrightarrow> 0 \<le> pid \<and> pid < nextPeerId p))"

text \<open>
  What the loop of \<^verbatim>\<open>peerList.updatePeer\<close> keeps true of \<^verbatim>\<open>knownPeerIds\<close>, for the ids
  \<open>old\<close> before the call, the counter \<open>n0\<close> before the call and the counter \<open>n\<close> now: an
  address that had an id has that id, an address that had none has an id from \<open>n0\<close> up
  to \<open>n - 1\<close>, and no two addresses that had none share an id.
\<close>
definition loop_inv :: "(address \<rightharpoonup> int) \<Rightarrow> int \<Rightarrow> int \<Rightarrow> (address \<rightharpoonup> int) \<Rightarrow> bool" where
  "loop_inv old n0 n known =
     ((\<forall>a pid. known a = Some pid \<longrightarrow>
         (case old a of Some q \<Rightarrow> pid = q | None \<Rightarrow> n0 \<le> pid \<and> pid < n))
      \<and> (\<forall>a b pid. known a = Some pid \<and> known b = Some pid \<and> old a = None \<and> old b = None
            \<longrightarrow> a = b))"

text \<open>
  The history of the ids. \<open>assigned_ids p A\<close> are the ids the loop of
  \<^verbatim>\<open>peerList.updatePeer\<close> takes from the counter on the addresses \<open>A\<close>, one for each
  time it finds no id. Only that method writes \<^verbatim>\<open>peerIds\<close> or \<^verbatim>\<open>nextPeerId\<close>, so what a
  process has done to them is the sequence \<open>As\<close> of the address lists it has received:
  \<open>peer_run p As\<close> is the peer after them, \<open>ever_assigned p As\<close> the ids taken from
  the counter on the way.
\<close>
fun assigned_ids :: "peer \<Rightarrow> address list \<Rightarrow> int list" where
  "assigned_ids p [] = []"
| "assigned_ids p (a # Addresses) =
     (case peerIds p a of
        Some pid \<Rightarrow> assigned_ids p Addresses
      | None \<Rightarrow>
          nextPeerId p # assigned_ids (p\<lparr>nextPeerId := go_int (nextPeerId p + 1)\<rparr>) Addresses)"

fun peer_run :: "peer \<Rightarrow> address list list \<Rightarrow> peer" where
  "peer_run p [] = p"
| "peer_run p (A # As) = peer_run (peerList_updatePeer A p) As"

fun ever_assigned :: "peer \<Rightarrow> address list list \<Rightarrow> int set" where
  "ever_assigned p [] = {}"
| "ever_assigned p (A # As) = set (assigned_ids p A) \<union> ever_assigned (peerList_updatePeer A p) As"

text \<open>
  The peer a response of the broadcast is meant for: the key of the endpoint a
  \<^verbatim>\<open>dataDirect\<close> goes to, the field \<^verbatim>\<open>To\<close> of a \<^verbatim>\<open>dataRelayTo\<close>.
\<close>
definition destination :: "'d response \<Rightarrow> address option" where
  "destination m =
     (case response_m m of
        ToPeer (dataDirect d) \<Rightarrow> Some (addrKey (response_to m))
      | ToServer (dataRelayTo To d) \<Rightarrow> Some To
      | _ \<Rightarrow> None)"

text \<open>The payload a response carries, if it carries one.\<close>
definition payload :: "'d response \<Rightarrow> 'd option" where
  "payload m =
     (case response_m m of
        ToPeer (dataDirect d) \<Rightarrow> Some d
      | ToPeer (dataRelayedFrom f d) \<Rightarrow> Some d
      | ToServer (dataRelayTo To d) \<Rightarrow> Some d
      | _ \<Rightarrow> None)"

text \<open>The response of the broadcast for the peer \<open>k\<close>, with the payload \<open>cp\<close>.\<close>
definition fan_out_message :: "UDPAddr option \<Rightarrow> peer \<Rightarrow> address \<Rightarrow> 'd \<Rightarrow> 'd response" where
  "fan_out_message serverAddressUdp p k cp =
     (if k \<in> alivePeers p
      then \<lparr>response_to = addrFromKey k, response_m = ToPeer (dataDirect cp)\<rparr>
      else \<lparr>response_to = serverAddressUdp, response_m = ToServer (dataRelayTo k cp)\<rparr>)"

section \<open>Concrete inputs\<close>

text \<open>
  Three endpoints: an IPv4 one, the same in its IPv4-mapped form, and a link-local IPv6
  one with the zone a socket reports for it.
\<close>
definition ep1 :: UDPAddr where
  "ep1 = \<lparr>IP = [192, 168, 0, 1], Port = 9000, Zone = []\<rparr>"

definition ep1_mapped :: UDPAddr where
  "ep1_mapped =
     \<lparr>IP = [0, 0, 0, 0, 0, 0, 0, 0, 0, 0, 0xff, 0xff, 192, 168, 0, 1], Port = 9000, Zone = []\<rparr>"

definition ep_zoned :: UDPAddr where
  "ep_zoned =
     \<lparr>IP = [0xfe, 0x80, 0, 0, 0, 0, 0, 0, 0, 0, 0, 0, 0, 0, 0, 1], Port = 9000,
      Zone = ''eth0''\<rparr>"

definition ep2 :: UDPAddr where
  "ep2 = \<lparr>IP = [192, 168, 0, 2], Port = 9001, Zone = []\<rparr>"

text \<open>
  The datagram \<^verbatim>\<open>03 10 00 00\<close> is the gob encoding of an interface value with an
  empty type name. A decoder that treats it as gob does, returning no error and leaving
  \<open>m\<close> nil, and fails on every other datagram.
\<close>
definition Decode_nil :: "bytes \<Rightarrow> string + bytes serverRequest option" where
  "Decode_nil b = (if b = [3, 16, 0, 0] then Inr None else Inl ''gob: decoding error'')"

text \<open>
  An encoder that fails on the two server requests, a socket that keeps the datagrams it
  is given and reports an error for every one, and two responses.
\<close>
definition Encode0 :: "bytes message \<Rightarrow> string + bytes" where
  "Encode0 m = (case m of ToServer r \<Rightarrow> Inl ''gob: type not registered'' | ToPeer r \<Rightarrow> Inr [1])"

definition WriteToUDP0 ::
  "(bytes \<times> UDPAddr) list \<Rightarrow> bytes \<Rightarrow> UDPAddr \<Rightarrow> (bytes \<times> UDPAddr) list \<times> string option" where
  "WriteToUDP0 c b t = (c @ [(b, t)], Some ''sendto: network is unreachable'')"

definition out0 :: "bytes response list" where
  "out0 = [\<lparr>response_to = None, response_m = ToServer getPeerList\<rparr>,
           \<lparr>response_to = Some ep1, response_m = ToPeer keepAlive\<rparr>]"

text \<open>
  A peer that knows one address; a peer loop that knows two, one of them alive; a memory
  with one buffer; the endpoint of a server.
\<close>
definition p0 :: peer where
  "p0 = \<lparr>peerIds = [addrKey (Some ep1) \<mapsto> 0], nextPeerId = 1, alivePeers = {},
          seenPeerAlive = []\<rparr>"

definition st0 :: "nat meshPeer_state" where
  "st0 = meshPeer_init\<lparr>pr_p :=
     \<lparr>peerIds = [addrKey (Some ep1) \<mapsto> 0, addrKey (Some ep2) \<mapsto> 1], nextPeerId = 2,
      alivePeers = {addrKey (Some ep1)}, seenPeerAlive = []\<rparr>\<rparr>"

definition h0 :: heap where
  "h0 = [[0xDE, 0xAD, 0xBE, 0xEF]]"

definition ep_server :: UDPAddr where
  "ep_server = \<lparr>IP = [10, 0, 0, 1], Port = 7000, Zone = []\<rparr>"

section \<open>Properties of the address codec\<close>

lemma length_copy: "length (copy dst src) = length dst"
  by (simp add: copy_def)

lemma copy_same_length: "length src = length dst \<Longrightarrow> copy dst src = src"
  by (simp add: copy_def)

lemma length_port_slice: "length (drop 16 (Rep_address a)) = 2"
  using Rep_address [of a] by simp

lemma length_ip_slice: "length (take 16 (Rep_address a)) = 16"
  using Rep_address [of a] by simp

lemma length_addrKey_bytes: "length (addrKey_bytes addr) = 18"
  by (simp add: addrKey_bytes_def Let_def length_copy PutUint16_def)

lemma Rep_addrKey: "Rep_address (addrKey addr) = addrKey_bytes addr"
  by (simp add: addrKey_def Abs_address_inverse length_addrKey_bytes)

lemma Uint16_PutUint16: "Uint16 (PutUint16 b v) = v"
  unfolding Uint16_def PutUint16_def
  by (rule bit_word_eqI) (auto simp add: bit_simps)

lemma PutUint16_Uint16: "length b = 2 \<Longrightarrow> PutUint16 b' (Uint16 b) = b @ drop 2 b'"
proof -
  assume len: "length b = 2"
  then obtain x y where b: "b = [x, y]"
    by (cases b; cases "tl b") auto
  define w :: "16 word" where "w = ucast y OR push_bit 8 (ucast x)"
  have hi: "(ucast (drop_bit 8 w) :: byte) = x"
    unfolding w_def by (rule bit_word_eqI) (auto simp add: bit_simps dest: bit_imp_le_length)
  have lo: "(ucast w :: byte) = y"
    unfolding w_def by (rule bit_word_eqI) (auto simp add: bit_simps)
  have "Uint16 b = w"
    by (simp add: b Uint16_def w_def)
  then show ?thesis
    by (simp add: PutUint16_def hi lo b)
qed

lemma AddrFromSlice_key:
  "AddrFromSlice (take 16 (Rep_address a)) = (Addr_v6 (take 16 (Rep_address a)) [], True)"
  using length_ip_slice [of a] by (simp add: AddrFromSlice_def del: length_take)

lemma length_As16_AddrPort: "length (As16 (Addr (UDPAddr_AddrPort a))) = 16"
  by (cases a)
     (auto simp add: UDPAddr_AddrPort_def AddrPortFrom_def AddrFromSlice_def WithZone_def
        As16_def v4InV6Prefix_def)

lemma addrKey_bytes_eq:
  "addrKey_bytes a =
     As16 (Addr (UDPAddr_AddrPort a)) @ PutUint16 [0, 0] (AddrPort_Port (UDPAddr_AddrPort a))"
proof -
  have z: "replicate 18 (0::byte) = replicate 16 0 @ [0, 0]"
    by (simp add: eval_nat_numeral)
  show ?thesis
    unfolding addrKey_bytes_def Let_def z
    by (simp add: copy_same_length length_As16_AddrPort)
qed

lemma addrFromKey_eq:
  "addrFromKey a =
     Some \<lparr>IP = take 16 (Rep_address a), Port = uint (Uint16 (drop 16 (Rep_address a))),
           Zone = []\<rparr>"
  by (simp add: addrFromKey_def AddrFromSlice_key UDPAddrFromAddrPort_def
      AddrPortFrom_def AsSlice_def Addr_Zone_def)

lemma addrKey_addrFromKey: "addrKey (addrFromKey k) = k"
proof -
  let ?r = "Rep_address k"
  have ap: "UDPAddr_AddrPort (addrFromKey k)
      = \<lparr>Addr = Addr_v6 (take 16 ?r) [], AddrPort_Port = Uint16 (drop 16 ?r)\<rparr>"
    by (simp add: addrFromKey_eq UDPAddr_AddrPort_def AddrFromSlice_key
        WithZone_def AddrPortFrom_def)
  have "PutUint16 [0, 0] (Uint16 (drop 16 ?r)) = drop 16 ?r"
    using PutUint16_Uint16 [OF length_port_slice, of "[0, 0]" k] by simp
  then have "addrKey_bytes (addrFromKey k) = take 16 ?r @ drop 16 ?r"
    by (simp add: addrKey_bytes_eq ap As16_def)
  then show ?thesis
    by (simp add: addrKey_def Rep_address_inverse)
qed

lemma addrFromKey_addrKey:
  "addrFromKey (addrKey a) =
     Some \<lparr>IP = As16 (Addr (UDPAddr_AddrPort a)),
           Port = uint (AddrPort_Port (UDPAddr_AddrPort a)), Zone = []\<rparr>"
  by (simp add: addrFromKey_eq Rep_addrKey addrKey_bytes_eq length_As16_AddrPort
      Uint16_PutUint16)

lemma addrKey_eq_iff:
  "addrKey a = addrKey b \<longleftrightarrow>
     As16 (Addr (UDPAddr_AddrPort a)) = As16 (Addr (UDPAddr_AddrPort b)) \<and>
     AddrPort_Port (UDPAddr_AddrPort a) = AddrPort_Port (UDPAddr_AddrPort b)"
proof -
  have "addrKey a = addrKey b \<longleftrightarrow> addrKey_bytes a = addrKey_bytes b"
    by (simp add: addrKey_def Abs_address_inject length_addrKey_bytes)
  also have "\<dots> \<longleftrightarrow> As16 (Addr (UDPAddr_AddrPort a)) = As16 (Addr (UDPAddr_AddrPort b)) \<and>
     PutUint16 [0, 0] (AddrPort_Port (UDPAddr_AddrPort a))
       = PutUint16 [0, 0] (AddrPort_Port (UDPAddr_AddrPort b))"
    by (simp add: addrKey_bytes_eq length_As16_AddrPort)
  also have "\<dots> \<longleftrightarrow> As16 (Addr (UDPAddr_AddrPort a)) = As16 (Addr (UDPAddr_AddrPort b)) \<and>
     AddrPort_Port (UDPAddr_AddrPort a) = AddrPort_Port (UDPAddr_AddrPort b)"
    by (metis Uint16_PutUint16)
  finally show ?thesis .
qed

lemma plain_As16:
  "plain_endpoint e \<Longrightarrow>
   As16 (Addr (UDPAddr_AddrPort (Some e)))
     = (if length (IP e) = 4 then v4InV6Prefix @ IP e else IP e)"
  by (auto simp add: plain_endpoint_def UDPAddr_AddrPort_def AddrPortFrom_def
      AddrFromSlice_def WithZone_def As16_def)

lemma plain_Port:
  "plain_endpoint e \<Longrightarrow> uint (AddrPort_Port (UDPAddr_AddrPort (Some e))) = Port e"
  by (simp add: plain_endpoint_def UDPAddr_AddrPort_def AddrPortFrom_def uint_word_of_int)

lemma plain_Port_eq:
  assumes "plain_endpoint e" "plain_endpoint e'"
  shows "AddrPort_Port (UDPAddr_AddrPort (Some e)) = AddrPort_Port (UDPAddr_AddrPort (Some e'))
     \<longleftrightarrow> Port e = Port e'"
  using plain_Port [OF assms(1)] plain_Port [OF assms(2)]
  by (metis word_uint_eqI)

lemma length_v4InV6Prefix: "length v4InV6Prefix = 12"
  by (simp add: v4InV6Prefix_def)

lemma take_drop_append_iff:
  "length p = n \<Longrightarrow> (take n x = p \<and> drop n x = b) \<longleftrightarrow> x = p @ b"
proof
  assume "take n x = p \<and> drop n x = b"
  then have "p @ b = take n x @ drop n x"
    by simp
  then show "x = p @ b"
    by simp
next
  assume "length p = n" and "x = p @ b"
  then show "take n x = p \<and> drop n x = b"
    by simp
qed

lemma IP_Equal_4_16:
  "length a = 4 \<Longrightarrow> length b = 16 \<Longrightarrow> IP_Equal a b \<longleftrightarrow> v4InV6Prefix @ a = b"
  using take_drop_append_iff [OF length_v4InV6Prefix, of b a]
  by (simp add: IP_Equal_def eq_commute)


lemma IP_Equal_16_4:
  "length a = 16 \<Longrightarrow> length b = 4 \<Longrightarrow> IP_Equal a b \<longleftrightarrow> a = v4InV6Prefix @ b"
  using take_drop_append_iff [OF length_v4InV6Prefix, of a b]
  by (simp add: IP_Equal_def)

lemma IP_Equal_same_length: "length a = length b \<Longrightarrow> IP_Equal a b \<longleftrightarrow> a = b"
  by (simp add: IP_Equal_def)

lemma IP_Equal_As16:
  assumes a: "length a = 4 \<or> length a = 16" and b: "length b = 4 \<or> length b = 16"
  shows "IP_Equal a b \<longleftrightarrow>
     (if length a = 4 then v4InV6Prefix @ a else a) = (if length b = 4 then v4InV6Prefix @ b else b)"
proof -
  consider "length a = 4" "length b = 4" | "length a = 4" "length b = 16"
    | "length a = 16" "length b = 4" | "length a = 16" "length b = 16"
    using a b by blast
  then show ?thesis
  proof cases
    case 1
    then show ?thesis by (simp add: IP_Equal_same_length)
  next
    case 2
    then show ?thesis by (simp add: IP_Equal_4_16)
  next
    case 3
    then show ?thesis by (simp add: IP_Equal_16_4)
  next
    case 4
    then show ?thesis by (simp add: IP_Equal_same_length)
  qed
qed

lemma same_endpoint_roundtrip:
  assumes pl: "plain_endpoint e"
  shows "same_endpoint
     \<lparr>IP = As16 (Addr (UDPAddr_AddrPort (Some e))),
      Port = uint (AddrPort_Port (UDPAddr_AddrPort (Some e))), Zone = []\<rparr> e"
proof -
  have len: "length (IP e) = 4 \<or> length (IP e) = 16" and zone: "Zone e = []"
    using pl by (simp_all add: plain_endpoint_def)
  have "IP_Equal (if length (IP e) = 4 then v4InV6Prefix @ IP e else IP e) (IP e)"
  proof (cases "length (IP e) = 4")
    case True
    then show ?thesis
      by (simp add: IP_Equal_16_4 length_v4InV6Prefix)
  next
    case False
    then show ?thesis
      by (simp add: IP_Equal_same_length)
  qed
  then show ?thesis
    by (simp add: same_endpoint_def plain_As16 [OF pl] plain_Port [OF pl] zone)
qed

text \<open>
  Claim C7, as the code has it. For every key \<open>k\<close>, \<open>addrKey (addrFromKey k) = k\<close>.
  For every endpoint without a zone (an IP of 4 or 16 bytes, a port of 16 bits),
  \<open>addrFromKey (addrKey e)\<close> is a non-nil endpoint with the same IP address (up to the
  IPv4-mapped form), the same port and no zone; and two such endpoints are the same
  endpoint if and only if their keys are equal.
\<close>
theorem address_codec_roundtrip:
  "addrKey (addrFromKey k) = k
   \<and> (plain_endpoint e \<longrightarrow>
        (\<exists>e'. addrFromKey (addrKey (Some e)) = Some e' \<and> same_endpoint e' e))
   \<and> (plain_endpoint e1 \<and> plain_endpoint e2 \<longrightarrow>
        (same_endpoint e1 e2 \<longleftrightarrow> addrKey (Some e1) = addrKey (Some e2)))"
proof (intro conjI impI)
  show "addrKey (addrFromKey k) = k"
    by (rule addrKey_addrFromKey)
next
  assume pl: "plain_endpoint e"
  show "\<exists>e'. addrFromKey (addrKey (Some e)) = Some e' \<and> same_endpoint e' e"
    using same_endpoint_roundtrip [OF pl] by (simp add: addrFromKey_addrKey)
next
  assume pl: "plain_endpoint e1 \<and> plain_endpoint e2"
  then have p1: "plain_endpoint e1" and p2: "plain_endpoint e2"
    by simp_all
  have l1: "length (IP e1) = 4 \<or> length (IP e1) = 16"
    and l2: "length (IP e2) = 4 \<or> length (IP e2) = 16"
    and zone: "Zone e1 = Zone e2"
    using p1 p2 by (simp_all add: plain_endpoint_def)
  have ip: "IP_Equal (IP e1) (IP e2) \<longleftrightarrow>
      As16 (Addr (UDPAddr_AddrPort (Some e1))) = As16 (Addr (UDPAddr_AddrPort (Some e2)))"
    by (simp only: plain_As16 [OF p1] plain_As16 [OF p2] IP_Equal_As16 [OF l1 l2])
  show "same_endpoint e1 e2 \<longleftrightarrow> addrKey (Some e1) = addrKey (Some e2)"
    by (simp only: same_endpoint_def addrKey_eq_iff ip zone plain_Port_eq [OF p1 p2] simp_thms)
qed

text \<open>The theorem of C7 at the endpoint 192.168.0.1:9000 and its IPv4-mapped form.\<close>
theorem address_codec_roundtrip_witness:
  "plain_endpoint ep1 \<and> plain_endpoint ep1_mapped
   \<and> addrKey (addrFromKey (addrKey (Some ep1))) = addrKey (Some ep1)
   \<and> (\<exists>e'. addrFromKey (addrKey (Some ep1)) = Some e' \<and> same_endpoint e' ep1)
   \<and> same_endpoint ep1 ep1_mapped
   \<and> addrKey (Some ep1) = addrKey (Some ep1_mapped)"
proof -
  have p1: "plain_endpoint ep1" and p2: "plain_endpoint ep1_mapped"
    by (simp_all add: plain_endpoint_def ep1_def ep1_mapped_def)
  have s: "same_endpoint ep1 ep1_mapped"
    by (simp add: same_endpoint_def IP_Equal_def ep1_def ep1_mapped_def v4InV6Prefix_def)
  note t = address_codec_roundtrip [of "addrKey (Some ep1)" ep1 ep1 ep1_mapped]
  note a = t [THEN conjunct1]
  note b = t [THEN conjunct2, THEN conjunct1, THEN mp, OF p1]
  note c = t [THEN conjunct2, THEN conjunct2, THEN mp, OF conjI [OF p1 p2], THEN iffD1, OF s]
  from p1 p2 a b s c show ?thesis
    by (intro conjI)
qed

text \<open>
  Claim C7 as stated fails on an endpoint with a zone: the key has no room for the zone.
  The endpoint \<open>fe80::1%eth0\<close>, port 9000, comes back without its zone, and it has the
  key of \<open>fe80::1%eth1\<close>, port 9000, which is another endpoint.
\<close>
theorem zone_lost_counterexample:
  "addrFromKey (addrKey (Some ep_zoned)) = Some (ep_zoned\<lparr>Zone := []\<rparr>)
   \<and> \<not> same_endpoint (ep_zoned\<lparr>Zone := []\<rparr>) ep_zoned
   \<and> addrKey (Some ep_zoned) = addrKey (Some (ep_zoned\<lparr>Zone := ''eth1''\<rparr>))
   \<and> \<not> same_endpoint ep_zoned (ep_zoned\<lparr>Zone := ''eth1''\<rparr>)"
  by (simp add: addrFromKey_addrKey addrKey_eq_iff same_endpoint_def ep_zoned_def
      UDPAddr_AddrPort_def AddrPortFrom_def AddrFromSlice_def WithZone_def As16_def
      uint_word_of_int)

text \<open>
  Claim C9. For every key, the slice given to \<^verbatim>\<open>AddrFromSlice\<close> has length 16, so
  \<^verbatim>\<open>ok\<close> is true and \<open>addrFromKey\<close> returns a non-nil endpoint; the writer does not take
  its \<^verbatim>\<open>m.to == nil\<close> branch on a response with that target, it encodes the message and
  goes on to write it.
\<close>
theorem addrFromKey_never_nil:
  "length (take 16 (Rep_address a)) = 16
   \<and> snd (AddrFromSlice (take 16 (Rep_address a)))
   \<and> (\<exists>to. addrFromKey a = Some to
        \<and> writer Encode WriteToUDP conn (\<lparr>response_to = addrFromKey a, response_m = m\<rparr> # out)
            = (case Encode m of
                 Inl err \<Rightarrow> (conn, Fatal err)
               | Inr b \<Rightarrow> writer Encode WriteToUDP (fst (WriteToUDP conn b to)) out))"
  by (simp add: length_ip_slice AddrFromSlice_key addrFromKey_eq del: length_take)

section \<open>Properties of the server\<close>

text \<open>
  What the request branch of the server loop does with a datagram. The sender is sent on
  \<^verbatim>\<open>seen\<close> (once, after what was sent before) if and only if the decoder returns no
  error; when it returns one, the loop only logs a line: nothing is sent on \<^verbatim>\<open>seen\<close> or
  \<^verbatim>\<open>responses\<close> and the server is as before.
\<close>
lemma decode_then_seen:
  "((sv_seen (meshServer_request Decode ks (Value rq) st) = sv_seen st @ [request_from rq])
      = (\<exists>m. Decode (request_buffer rq) = Inr m))
   \<and> ((\<exists>err. Decode (request_buffer rq) = Inl err) \<longrightarrow>
        meshServer_request Decode ks (Value rq) st = st\<lparr>sv_log := sv_log st @ [''ignoring'']\<rparr>)"
proof (cases "Decode (request_buffer rq)")
  case (Inl err)
  then show ?thesis by simp
next
  case (Inr m)
  show ?thesis
  proof (cases m)
    case None
    with Inr show ?thesis by simp
  next
    case (Some r)
    obtain s replies lg where "updateServer ks r (sv_s st) (request_from rq) = (s, replies, lg)"
      by (cases "updateServer ks r (sv_s st) (request_from rq)") auto
    with Inr Some show ?thesis by simp
  qed
qed

text \<open>
  When the decoder returns no error and leaves \<open>m\<close> nil, no message has been decoded; the
  loop still sends the sender on \<^verbatim>\<open>seen\<close>, and the call \<^verbatim>\<open>m.updateServer\<close> panics.
\<close>
lemma nil_message_seen:
  "Decode (request_buffer rq) = Inr None \<Longrightarrow>
   meshServer_request Decode ks (Value rq) st
     = st\<lparr>sv_seen := sv_seen st @ [request_from rq], sv_panic := True\<rparr>"
  by simp

text \<open>
  Claim C1 on the code, at the datagram \<^verbatim>\<open>03 10 00 00\<close> from the endpoint
  192.168.0.1:9000. The claim has the sender on \<^verbatim>\<open>seen\<close> only when the datagram decodes
  into a message. Here no message is decoded (the decoder's result is nil, and nothing
  else is a message), yet the server loop sends the sender on \<^verbatim>\<open>seen\<close>, and then it
  panics: it neither logs nor skips the datagram.
\<close>
theorem nil_datagram_seen_and_panic:
  "Decode_nil [3, 16, 0, 0] = Inr None
   \<and> (\<nexists>m. Decode_nil [3, 16, 0, 0] = Inr (Some m))
   \<and> meshServer_request Decode_nil []
        (Value \<lparr>request_from = Some ep1, request_buffer = [3, 16, 0, 0]\<rparr>) meshServer_init
      = meshServer_init\<lparr>sv_seen := [Some ep1], sv_panic := True\<rparr>
   \<and> sv_log (meshServer_request Decode_nil []
        (Value \<lparr>request_from = Some ep1, request_buffer = [3, 16, 0, 0]\<rparr>) meshServer_init)
      = []"
  by (simp add: Decode_nil_def meshServer_init_def)

text \<open>
  Claim C4. \<^verbatim>\<open>getPeerList.updateServer\<close> inserts the key of the sender into the members
  and sends one reply, to the sender: a \<^verbatim>\<open>peerList\<close> whose addresses are, each once and
  in the order \<^verbatim>\<open>range\<close> yields them, the members after the insertion without the
  sender's key.
\<close>
theorem getPeerList_reply:
  assumes "distinct ks" and "set ks = insert (addrKey frm) (peers s)"
  shows "\<exists>reply lg.
     getPeerList_updateServer ks s frm
       = (s\<lparr>peers := insert (addrKey frm) (peers s)\<rparr>,
          [\<lparr>response_to = frm, response_m = ToPeer (peerList reply)\<rparr>], lg)
     \<and> set reply = insert (addrKey frm) (peers s) - {addrKey frm}
     \<and> distinct reply"
  using assms by (auto simp add: getPeerList_updateServer_def Let_def)

lemma ep1_ep2_keys: "addrKey (Some ep1) \<noteq> addrKey (Some ep2)"
  by (simp add: addrKey_eq_iff ep1_def ep2_def UDPAddr_AddrPort_def AddrPortFrom_def
      AddrFromSlice_def WithZone_def As16_def)

text \<open>The theorem of C4 for a server that knows one peer, asked by a second one.\<close>
theorem getPeerList_reply_witness:
  "distinct [addrKey (Some ep1), addrKey (Some ep2)]
   \<and> set [addrKey (Some ep1), addrKey (Some ep2)]
       = insert (addrKey (Some ep2)) (peers \<lparr>peers = {addrKey (Some ep1)}\<rparr>)
   \<and> (\<exists>reply lg.
        (getPeerList_updateServer [addrKey (Some ep1), addrKey (Some ep2)]
           \<lparr>peers = {addrKey (Some ep1)}\<rparr> (Some ep2) :: server \<times> bytes response list \<times> log)
          = (\<lparr>peers = {addrKey (Some ep2), addrKey (Some ep1)}\<rparr>,
             [\<lparr>response_to = Some ep2, response_m = ToPeer (peerList reply)\<rparr>], lg)
        \<and> set reply = {addrKey (Some ep1)})"
proof -
  let ?ks = "[addrKey (Some ep1), addrKey (Some ep2)]"
  let ?s = "\<lparr>peers = {addrKey (Some ep1)}\<rparr>"
  have d: "distinct ?ks"
    using ep1_ep2_keys by simp
  have m: "set ?ks = insert (addrKey (Some ep2)) (peers ?s)"
    by auto
  have r: "insert (addrKey (Some ep2)) (peers ?s) - {addrKey (Some ep2)} = {addrKey (Some ep1)}"
    using ep1_ep2_keys by auto
  obtain reply :: "address list" and lg where
    u: "(getPeerList_updateServer ?ks ?s (Some ep2) :: server \<times> bytes response list \<times> log)
          = (?s\<lparr>peers := insert (addrKey (Some ep2)) (peers ?s)\<rparr>,
             [\<lparr>response_to = Some ep2, response_m = ToPeer (peerList reply)\<rparr>], lg)"
    and sr: "set reply = insert (addrKey (Some ep2)) (peers ?s) - {addrKey (Some ep2)}"
    using getPeerList_reply [OF d m] by blast
  from u have u': "(getPeerList_updateServer ?ks ?s (Some ep2) :: server \<times> bytes response list \<times> log)
          = (\<lparr>peers = {addrKey (Some ep2), addrKey (Some ep1)}\<rparr>,
             [\<lparr>response_to = Some ep2, response_m = ToPeer (peerList reply)\<rparr>], lg)"
    by simp
  from sr r have sr': "set reply = {addrKey (Some ep1)}"
    by simp
  from u' sr' have "\<exists>reply lg.
        (getPeerList_updateServer ?ks ?s (Some ep2) :: server \<times> bytes response list \<times> log)
          = (\<lparr>peers = {addrKey (Some ep2), addrKey (Some ep1)}\<rparr>,
             [\<lparr>response_to = Some ep2, response_m = ToPeer (peerList reply)\<rparr>], lg)
        \<and> set reply = {addrKey (Some ep1)}"
    by blast
  with d m show ?thesis
    by (intro conjI)
qed

text \<open>
  Claim C5. For a \<^verbatim>\<open>dataRelayTo{To, Data}\<close> the server sends, when \<open>To\<close> is a member, one
  \<^verbatim>\<open>dataRelayedFrom\<close> with the key of the sender and the same \<open>Data\<close> to the endpoint of
  \<open>To\<close>, which is not nil; when \<open>To\<close> is not a member it sends nothing. The server is
  unchanged either way.
\<close>
theorem dataRelayTo_relays:
  "(To \<in> peers s \<longrightarrow>
      (\<exists>e. addrFromKey To = Some e
         \<and> updateServer ks (dataRelayTo To Data) s frm
             = (s, [\<lparr>response_to = Some e,
                      response_m = ToPeer (dataRelayedFrom (addrKey frm) Data)\<rparr>],
                [''dataRelayTo from''])))
   \<and> (To \<notin> peers s \<longrightarrow>
        updateServer ks (dataRelayTo To Data) s frm = (s, [], [''dataRelayTo from'']))"
  by (simp add: dataRelayTo_updateServer_def addrFromKey_eq)

text \<open>The theorem of C5 at a member and at a key that is not a member.\<close>
theorem dataRelayTo_relays_witness:
  "(\<exists>e. addrFromKey (addrKey (Some ep1)) = Some e
      \<and> updateServer [] (dataRelayTo (addrKey (Some ep1)) [0xCA, 0xFE :: byte])
          \<lparr>peers = {addrKey (Some ep1)}\<rparr> (Some ep2)
          = (\<lparr>peers = {addrKey (Some ep1)}\<rparr>,
             [\<lparr>response_to = Some e,
               response_m = ToPeer (dataRelayedFrom (addrKey (Some ep2)) [0xCA, 0xFE])\<rparr>],
             [''dataRelayTo from'']))
   \<and> updateServer [] (dataRelayTo (addrKey (Some ep2)) [0xCA, 0xFE :: byte])
          \<lparr>peers = {addrKey (Some ep1)}\<rparr> (Some ep1)
        = (\<lparr>peers = {addrKey (Some ep1)}\<rparr>, [], [''dataRelayTo from''])"
proof -
  let ?s = "\<lparr>peers = {addrKey (Some ep1)}\<rparr>"
  have i: "addrKey (Some ep1) \<in> peers ?s" and n: "addrKey (Some ep2) \<notin> peers ?s"
    using ep1_ep2_keys by auto
  note a = dataRelayTo_relays [of "addrKey (Some ep1)" ?s "[]" "[0xCA, 0xFE :: byte]" "Some ep2",
      THEN conjunct1, THEN mp, OF i]
  note b = dataRelayTo_relays [of "addrKey (Some ep2)" ?s "[]" "[0xCA, 0xFE :: byte]" "Some ep1",
      THEN conjunct2, THEN mp, OF n]
  from a b show ?thesis
    by (intro conjI)
qed

section \<open>Properties of the peer\<close>

text \<open>
  Claim C8. A timeout for the address \<open>a\<close> removes the key of \<open>a\<close> from the alive
  peers and leaves \<^verbatim>\<open>peerIds\<close> and \<^verbatim>\<open>nextPeerId\<close> as they were.
\<close>
theorem timeout_removes_alive:
  "alivePeers (pr_p (meshPeer_timeout (Value a) st)) = alivePeers (pr_p st) - {addrKey a}
   \<and> addrKey a \<notin> alivePeers (pr_p (meshPeer_timeout (Value a) st))
   \<and> peerIds (pr_p (meshPeer_timeout (Value a) st)) = peerIds (pr_p st)
   \<and> nextPeerId (pr_p (meshPeer_timeout (Value a) st)) = nextPeerId (pr_p st)"
  by simp

section \<open>Properties of the writer\<close>

lemma writer_append_ok:
  "\<forall>x\<in>set pre. encodable Encode x \<Longrightarrow>
   snd (writer Encode W conn pre) = Done
   \<and> writer Encode W conn (pre @ rest) = writer Encode W (fst (writer Encode W conn pre)) rest"
proof (induction pre arbitrary: conn)
  case Nil
  then show ?case by simp
next
  case (Cons x pre)
  then show ?case
    by (cases "response_to x") (auto simp add: encodable_def)
qed

lemma writer_trace:
  "\<forall>x\<in>set out. encodable Encode x \<Longrightarrow>
   writer Encode (\<lambda>c b t. (c @ [(b, t)], E c b t)) c0 out = (c0 @ datagrams Encode out, Done)"
proof (induction out arbitrary: c0)
  case Nil
  then show ?case by (simp add: datagrams_def)
next
  case (Cons x out)
  then show ?case
    by (cases "response_to x") (auto simp add: encodable_def datagrams_def)
qed

text \<open>
  Claim C10. When the writer has got past the responses \<open>pre\<close> and the next one, with a
  target, does not encode, it ends by \<^verbatim>\<open>log.Fatal\<close> there: the socket is as after \<open>pre\<close>
  and the responses behind are not looked at. When every response with a target encodes,
  each of them is handed to the socket and the writer ends with its \<^verbatim>\<open>done\<close> signal,
  whatever errors \<open>E\<close> the socket reports for the writes.
\<close>
theorem writer_encode_error_is_fatal:
  "((\<forall>x\<in>set pre. encodable Encode x) \<and> response_to m = Some to
        \<and> Encode (response_m m) = Inl err \<longrightarrow>
      writer Encode W conn (pre @ m # post) = (fst (writer Encode W conn pre), Fatal err))
   \<and> ((\<forall>x\<in>set out. encodable Encode x) \<longrightarrow>
        writer Encode (\<lambda>c b t. (c @ [(b, t)], E c b t)) c out
          = (c @ datagrams Encode out, Done))"
  by (simp add: writer_append_ok writer_trace)

text \<open>
  The theorem of C10 with a socket on which every write fails: the writer goes on after
  the failed write, and stops at the response that does not encode.
\<close>
theorem writer_encode_error_is_fatal_witness:
  "writer Encode0 WriteToUDP0 []
       (out0 @ \<lparr>response_to = Some ep2, response_m = ToServer getPeerList\<rparr>
          # [\<lparr>response_to = Some ep1, response_m = ToPeer isAlive\<rparr>])
     = ([([1], ep1)], Fatal ''gob: type not registered'')
   \<and> writer Encode0 WriteToUDP0 [] out0 = ([([1], ep1)], Done)"
proof -
  have ok: "\<forall>x\<in>set out0. encodable Encode0 x"
    by (simp add: out0_def encodable_def Encode0_def)
  have w: "WriteToUDP0 = (\<lambda>c b t. (c @ [(b, t)], (\<lambda>c b t. Some ''sendto: network is unreachable'') c b t))"
    by (simp add: WriteToUDP0_def fun_eq_iff)
  have d: "datagrams Encode0 out0 = [([1], ep1)]"
    by (simp add: datagrams_def out0_def Encode0_def)
  have e: "Encode0 (response_m \<lparr>response_to = Some ep2, response_m = ToServer getPeerList\<rparr>)
      = Inl ''gob: type not registered''"
    by (simp add: Encode0_def)
  have t: "response_to \<lparr>response_to = Some ep2, response_m = ToServer (getPeerList :: bytes serverRequest)\<rparr> = Some ep2"
    by simp
  note a = writer_encode_error_is_fatal [where pre = out0 and Encode = Encode0 and to = ep2
      and W = WriteToUDP0 and conn = "[]"
      and post = "[\<lparr>response_to = Some ep1, response_m = ToPeer isAlive\<rparr>]",
      THEN conjunct1, THEN mp, OF conjI [OF ok conjI [OF t e]]]
  note b = writer_encode_error_is_fatal [where out = out0 and Encode = Encode0
      and E = "\<lambda>c b t. Some ''sendto: network is unreachable''" and c = "[]",
      THEN conjunct2, THEN mp, OF ok]
  from b have b': "writer Encode0 WriteToUDP0 [] out0 = ([([1], ep1)], Done)"
    unfolding d w [symmetric] by simp
  from a b' show ?thesis
    by simp
qed

section \<open>Properties of the peer: ids and broadcast\<close>

lemma go_int_id: "- (2 ^ 63) \<le> x \<Longrightarrow> x < 2 ^ 63 \<Longrightarrow> go_int x = x"
  unfolding go_int_def by simp

lemma loop_inv_old:
  "old a = Some q \<Longrightarrow> loop_inv old n0 n known \<Longrightarrow> loop_inv old n0 n (known(a \<mapsto> q))"
  unfolding loop_inv_def by (auto split: option.splits)

lemma loop_inv_new:
  assumes "old a = None" "n0 \<le> n" "loop_inv old n0 n known"
  shows "loop_inv old n0 (n + 1) (known(a \<mapsto> n))"
  unfolding loop_inv_def
proof (intro conjI allI impI)
  fix b pid
  assume "(known(a \<mapsto> n)) b = Some pid"
  then show "case old b of None \<Rightarrow> n0 \<le> pid \<and> pid < n + 1 | Some q \<Rightarrow> pid = q"
    using assms unfolding loop_inv_def
    by (cases "b = a") (force split: option.splits)+
next
  fix b c pid
  assume h: "(known(a \<mapsto> n)) b = Some pid \<and> (known(a \<mapsto> n)) c = Some pid
      \<and> old b = None \<and> old c = None"
  have lt: "\<And>x v. known x = Some v \<Longrightarrow> old x = None \<Longrightarrow> v < n"
    using assms(3) unfolding loop_inv_def by (force split: option.splits)
  show "b = c"
  proof (cases "b = a")
    case True
    with h have "pid = n" by simp
    with h lt [of c pid] True show ?thesis
      by (cases "c = a") auto
  next
    case False
    with h have kb: "known b = Some pid" by simp
    show ?thesis
    proof (cases "c = a")
      case True
      with h have "pid = n" by simp
      with kb h lt [of b pid] show ?thesis by auto
    next
      case False
      with h kb assms(3) show ?thesis
        unfolding loop_inv_def by auto
    qed
  qed
qed

lemma peerList_loop_props:
  assumes "0 \<le> nextPeerId p" and "nextPeerId p + int (length as) < 2 ^ 63"
    and "n0 \<le> nextPeerId p" and "loop_inv (peerIds p) n0 (nextPeerId p) known"
    and "peerList_loop p as known = (p', known')"
  shows "p' = p\<lparr>nextPeerId := nextPeerId p'\<rparr>
         \<and> nextPeerId p \<le> nextPeerId p'
         \<and> nextPeerId p' \<le> nextPeerId p + int (length as)
         \<and> dom known' = dom known \<union> set as
         \<and> loop_inv (peerIds p) n0 (nextPeerId p') known'"
  using assms
proof (induction as arbitrary: p known)
  case Nil
  then show ?case by simp
next
  case (Cons a as)
  show ?case
  proof (cases "peerIds p a")
    case (Some q)
    have li: "loop_inv (peerIds p) n0 (nextPeerId p) (known(a \<mapsto> q))"
      using Some Cons.prems(4) by (rule loop_inv_old)
    have l: "nextPeerId p + int (length as) < 2 ^ 63"
      using Cons.prems(2) by simp
    have r: "peerList_loop p as (known(a \<mapsto> q)) = (p', known')"
      using Cons.prems(5) Some by simp
    have d: "dom (known(a \<mapsto> q)) \<union> set as = dom known \<union> set (a # as)"
      by auto
    from Cons.IH [OF Cons.prems(1) l Cons.prems(3) li r] show ?thesis
      unfolding d by simp
  next
    case None
    let ?n = "nextPeerId p"
    let ?p = "p\<lparr>nextPeerId := go_int (?n + 1)\<rparr>"
    have g: "go_int (?n + 1) = ?n + 1"
      using Cons.prems(1,2) by (intro go_int_id) simp_all
    have li: "loop_inv (peerIds ?p) n0 (nextPeerId ?p) (known(a \<mapsto> ?n))"
      using loop_inv_new [OF None Cons.prems(3,4)] by (simp add: g)
    have z: "0 \<le> nextPeerId ?p" and l: "nextPeerId ?p + int (length as) < 2 ^ 63"
      and m: "n0 \<le> nextPeerId ?p"
      using Cons.prems(1,2,3) by (simp_all add: g)
    have r: "peerList_loop ?p as (known(a \<mapsto> ?n)) = (p', known')"
      using Cons.prems(5) None by simp
    have d: "dom (known(a \<mapsto> ?n)) \<union> set as = dom known \<union> set (a # as)"
      by auto
    from Cons.IH [OF z l m li r] show ?thesis
      unfolding d by (simp add: g)
  qed
qed

lemma loop_inv_empty: "loop_inv old n n Map.empty"
  by (simp add: loop_inv_def)

lemma peerList_updatePeer_result:
  assumes inv: "peer_inv p" and bound: "nextPeerId p + int (length A) < 2 ^ 63"
  obtains p1 known where "peerList_updatePeer A p = p1\<lparr>peerIds := known\<rparr>"
    and "p1 = p\<lparr>nextPeerId := nextPeerId p1\<rparr>" and "nextPeerId p \<le> nextPeerId p1"
    and "dom known = set A"
    and "loop_inv (peerIds p) (nextPeerId p) (nextPeerId p1) known"
proof -
  obtain p1 known where r: "peerList_loop p A Map.empty = (p1, known)"
    by (cases "peerList_loop p A Map.empty") auto
  have z: "0 \<le> nextPeerId p"
    using inv by (simp add: peer_inv_def)
  note props = peerList_loop_props [OF z bound order_refl loop_inv_empty r]
  have "peerList_updatePeer A p = p1\<lparr>peerIds := known\<rparr>"
    by (simp add: peerList_updatePeer_def r)
  with props that show thesis
    by simp
qed

lemma loop_inv_value:
  "loop_inv old n0 n known \<Longrightarrow> known a = Some pid \<Longrightarrow>
   (case old a of Some q \<Rightarrow> pid = q | None \<Rightarrow> n0 \<le> pid \<and> pid < n)"
  unfolding loop_inv_def by blast

lemma loop_inv_inj:
  "loop_inv old n0 n known \<Longrightarrow> known a = Some pid \<Longrightarrow> known b = Some pid \<Longrightarrow>
   old a = None \<Longrightarrow> old b = None \<Longrightarrow> a = b"
  unfolding loop_inv_def by blast

lemma peer_inv_peerList_updatePeer:
  assumes inv: "peer_inv p" and bound: "nextPeerId p + int (length A) < 2 ^ 63"
  shows "peer_inv (peerList_updatePeer A p)"
proof -
  from inv bound obtain p1 known where res: "peerList_updatePeer A p = p1\<lparr>peerIds := known\<rparr>"
    and mono: "nextPeerId p \<le> nextPeerId p1"
    and li: "loop_inv (peerIds p) (nextPeerId p) (nextPeerId p1) known"
    by (rule peerList_updatePeer_result)
  have z: "0 \<le> nextPeerId p"
    and old_lt: "\<And>a pid. peerIds p a = Some pid \<Longrightarrow> 0 \<le> pid \<and> pid < nextPeerId p"
    using inv by (simp_all add: peer_inv_def)
  show ?thesis
    unfolding peer_inv_def res
  proof (intro conjI allI impI)
    show "0 \<le> nextPeerId (p1\<lparr>peerIds := known\<rparr>)"
      using z mono by simp
  next
    fix a pid
    assume "peerIds (p1\<lparr>peerIds := known\<rparr>) a = Some pid"
    then have k: "known a = Some pid" by simp
    note v = loop_inv_value [OF li k]
    have "0 \<le> pid \<and> pid < nextPeerId p1"
    proof (cases "peerIds p a")
      case None
      with v z show ?thesis by simp
    next
      case (Some q)
      with v have "peerIds p a = Some pid" by simp
      from old_lt [OF this] mono show ?thesis by simp
    qed
    then show "0 \<le> pid" and "pid < nextPeerId (p1\<lparr>peerIds := known\<rparr>)"
      by simp_all
  qed
qed

lemma assigned_ids_range:
  assumes "0 \<le> nextPeerId p" and "nextPeerId p + int (length as) < 2 ^ 63"
    and "peerList_loop p as known = (p', known')"
  shows "set (assigned_ids p as) = {nextPeerId p..<nextPeerId p'}
     \<and> nextPeerId p \<le> nextPeerId p' \<and> nextPeerId p' \<le> nextPeerId p + int (length as)"
  using assms
proof (induction as arbitrary: p known)
  case Nil
  then show ?case by simp
next
  case (Cons a as)
  show ?case
  proof (cases "peerIds p a")
    case (Some q)
    have l: "nextPeerId p + int (length as) < 2 ^ 63"
      using Cons.prems(2) by simp
    have r: "peerList_loop p as (known(a \<mapsto> q)) = (p', known')"
      using Cons.prems(3) Some by simp
    from Cons.IH [OF Cons.prems(1) l r] Some show ?thesis
      by simp
  next
    case None
    let ?n = "nextPeerId p"
    let ?p = "p\<lparr>nextPeerId := go_int (?n + 1)\<rparr>"
    have g: "go_int (?n + 1) = ?n + 1"
      using Cons.prems(1,2) by (intro go_int_id) simp_all
    have z: "0 \<le> nextPeerId ?p" and l: "nextPeerId ?p + int (length as) < 2 ^ 63"
      using Cons.prems(1,2) by (simp_all add: g)
    have r: "peerList_loop ?p as (known(a \<mapsto> ?n)) = (p', known')"
      using Cons.prems(3) None by simp
    from Cons.IH [OF z l r]
    have s: "set (assigned_ids ?p as) = {?n + 1..<nextPeerId p'}"
      and m: "?n + 1 \<le> nextPeerId p'" and u: "nextPeerId p' \<le> ?n + 1 + int (length as)"
      by (simp_all add: g)
    have "set (assigned_ids p (a # as)) = insert ?n {?n + 1..<nextPeerId p'}"
      using None s by simp
    also have "\<dots> = {?n..<nextPeerId p'}"
      using m by auto
    finally show ?thesis
      using m u by simp
  qed
qed

lemma ever_assigned_range:
  assumes "peer_inv p" and "nextPeerId p + int (length (concat As)) < 2 ^ 63"
  shows "ever_assigned p As = {nextPeerId p..<nextPeerId (peer_run p As)}
     \<and> nextPeerId p \<le> nextPeerId (peer_run p As) \<and> peer_inv (peer_run p As)"
  using assms
proof (induction As arbitrary: p)
  case Nil
  then show ?case by simp
next
  case (Cons A As)
  let ?p = "peerList_updatePeer A p"
  obtain p1 known where r: "peerList_loop p A Map.empty = (p1, known)"
    by (cases "peerList_loop p A Map.empty") auto
  have z: "0 \<le> nextPeerId p"
    using Cons.prems(1) by (simp add: peer_inv_def)
  have b: "nextPeerId p + int (length A) < 2 ^ 63"
    using Cons.prems(2) by simp
  have n: "nextPeerId ?p = nextPeerId p1"
    by (simp add: peerList_updatePeer_def r)
  from assigned_ids_range [OF z b r]
  have s: "set (assigned_ids p A) = {nextPeerId p..<nextPeerId ?p}"
    and m: "nextPeerId p \<le> nextPeerId ?p" and u: "nextPeerId ?p \<le> nextPeerId p + int (length A)"
    by (simp_all add: n)
  have i: "peer_inv ?p"
    using Cons.prems(1) b by (rule peer_inv_peerList_updatePeer)
  have b': "nextPeerId ?p + int (length (concat As)) < 2 ^ 63"
    using Cons.prems(2) u by simp
  from Cons.IH [OF i b']
  have e: "ever_assigned ?p As = {nextPeerId ?p..<nextPeerId (peer_run ?p As)}"
    and m': "nextPeerId ?p \<le> nextPeerId (peer_run ?p As)" and i': "peer_inv (peer_run ?p As)"
    by simp_all
  have "ever_assigned p (A # As)
      = {nextPeerId p..<nextPeerId ?p} \<union> {nextPeerId ?p..<nextPeerId (peer_run ?p As)}"
    by (simp add: s e)
  also have "\<dots> = {nextPeerId p..<nextPeerId (peer_run ?p As)}"
    using m m' by auto
  finally show ?case
    using m m' i' by simp
qed

text \<open>
  Claim C2. For a peer the loop can reach (\<open>peer_inv\<close>) whose counter does not wrap
  around during the call, after \<^verbatim>\<open>peerList.updatePeer\<close> on the addresses \<open>A\<close>: the domain
  of \<^verbatim>\<open>peerIds\<close> is the set of \<open>A\<close>, so any other address has lost its id; an address of
  \<open>A\<close> that had an id keeps it; an address of \<open>A\<close> that had none gets an id from the old
  counter up to below the new one, while every id in the table before is below the old
  counter; no two addresses that had none get the same id; the peer is again one the
  loop can reach; and whatever address lists \<open>As\<close> brought the counter to where it is,
  the id of an address that had none is not among the ids ever taken from the counter.
\<close>
theorem peerList_updatePeer_ids:
  assumes inv: "peer_inv p" and bound: "nextPeerId p + int (length A) < 2 ^ 63"
  shows "dom (peerIds (peerList_updatePeer A p)) = set A
     \<and> (\<forall>a\<in>set A. \<forall>pid. peerIds p a = Some pid \<longrightarrow>
           peerIds (peerList_updatePeer A p) a = Some pid)
     \<and> (\<forall>a\<in>set A. peerIds p a = None \<longrightarrow>
           (\<exists>pid. peerIds (peerList_updatePeer A p) a = Some pid
              \<and> nextPeerId p \<le> pid \<and> pid < nextPeerId (peerList_updatePeer A p)))
     \<and> (\<forall>a\<in>set A. \<forall>b\<in>set A. peerIds p a = None \<and> peerIds p b = None
           \<and> peerIds (peerList_updatePeer A p) a = peerIds (peerList_updatePeer A p) b
           \<longrightarrow> a = b)
     \<and> (\<forall>a pid. peerIds p a = Some pid \<longrightarrow> 0 \<le> pid \<and> pid < nextPeerId p)
     \<and> peer_inv (peerList_updatePeer A p)
     \<and> alivePeers (peerList_updatePeer A p) = alivePeers p
     \<and> (\<forall>q As. peer_inv q \<and> nextPeerId q + int (length (concat As)) < 2 ^ 63
            \<and> nextPeerId p = nextPeerId (peer_run q As) \<longrightarrow>
          (\<forall>a\<in>set A. \<forall>pid. peerIds p a = None
               \<and> peerIds (peerList_updatePeer A p) a = Some pid
             \<longrightarrow> pid \<notin> ever_assigned q As))"
proof -
  from inv bound obtain p1 known where res: "peerList_updatePeer A p = p1\<lparr>peerIds := known\<rparr>"
    and p1: "p1 = p\<lparr>nextPeerId := nextPeerId p1\<rparr>"
    and d: "dom known = set A"
    and li: "loop_inv (peerIds p) (nextPeerId p) (nextPeerId p1) known"
    by (rule peerList_updatePeer_result)
  have old_lt: "\<forall>a pid. peerIds p a = Some pid \<longrightarrow> 0 \<le> pid \<and> pid < nextPeerId p"
    using inv by (simp add: peer_inv_def)
  have ids: "peerIds (peerList_updatePeer A p) = known"
    and nxt: "nextPeerId (peerList_updatePeer A p) = nextPeerId p1"
    by (simp_all add: res)
  have alive: "alivePeers (peerList_updatePeer A p) = alivePeers p"
    unfolding res by (subst p1) simp
  note val = loop_inv_value [OF li]
  note inj = loop_inv_inj [OF li]
  have c1: "dom (peerIds (peerList_updatePeer A p)) = set A"
    by (simp add: ids d)
  have c2: "\<forall>a\<in>set A. \<forall>pid. peerIds p a = Some pid \<longrightarrow>
           peerIds (peerList_updatePeer A p) a = Some pid"
  proof (intro ballI allI impI)
    fix a pid
    assume "a \<in> set A" and o: "peerIds p a = Some pid"
    then obtain x where x: "known a = Some x"
      using d by auto
    from val [OF x] o have "x = pid" by simp
    with x show "peerIds (peerList_updatePeer A p) a = Some pid"
      by (simp add: ids)
  qed
  have c3: "\<forall>a\<in>set A. peerIds p a = None \<longrightarrow>
           (\<exists>pid. peerIds (peerList_updatePeer A p) a = Some pid
              \<and> nextPeerId p \<le> pid \<and> pid < nextPeerId (peerList_updatePeer A p))"
  proof (intro ballI impI)
    fix a
    assume "a \<in> set A" and o: "peerIds p a = None"
    then obtain x where x: "known a = Some x"
      using d by auto
    from val [OF x] o have "nextPeerId p \<le> x \<and> x < nextPeerId p1" by simp
    with x show "\<exists>pid. peerIds (peerList_updatePeer A p) a = Some pid
              \<and> nextPeerId p \<le> pid \<and> pid < nextPeerId (peerList_updatePeer A p)"
      by (simp add: ids nxt)
  qed
  have c4: "\<forall>a\<in>set A. \<forall>b\<in>set A. peerIds p a = None \<and> peerIds p b = None
           \<and> peerIds (peerList_updatePeer A p) a = peerIds (peerList_updatePeer A p) b
           \<longrightarrow> a = b"
  proof (intro ballI impI)
    fix a b
    assume a: "a \<in> set A" and b: "b \<in> set A"
      and h: "peerIds p a = None \<and> peerIds p b = None
           \<and> peerIds (peerList_updatePeer A p) a = peerIds (peerList_updatePeer A p) b"
    from a d obtain x where x: "known a = Some x" by auto
    with h have "known b = Some x" by (simp add: ids)
    with x h show "a = b" by (intro inj [of a x b]) simp_all
  qed
  have c6: "peer_inv (peerList_updatePeer A p)"
    using inv bound by (rule peer_inv_peerList_updatePeer)
  have c7: "\<forall>q As. peer_inv q \<and> nextPeerId q + int (length (concat As)) < 2 ^ 63
            \<and> nextPeerId p = nextPeerId (peer_run q As) \<longrightarrow>
          (\<forall>a\<in>set A. \<forall>pid. peerIds p a = None
               \<and> peerIds (peerList_updatePeer A p) a = Some pid
             \<longrightarrow> pid \<notin> ever_assigned q As)"
  proof (intro allI impI ballI)
    fix q As a pid
    assume h: "peer_inv q \<and> nextPeerId q + int (length (concat As)) < 2 ^ 63
        \<and> nextPeerId p = nextPeerId (peer_run q As)"
      and a: "a \<in> set A"
      and n: "peerIds p a = None \<and> peerIds (peerList_updatePeer A p) a = Some pid"
    from h have "ever_assigned q As = {nextPeerId q..<nextPeerId (peer_run q As)}"
      by (simp add: ever_assigned_range)
    with h have e: "ever_assigned q As = {nextPeerId q..<nextPeerId p}"
      by simp
    from c3 a n have "nextPeerId p \<le> pid"
      by auto
    with e show "pid \<notin> ever_assigned q As"
      by simp
  qed
  from c1 c2 c3 c4 old_lt c6 alive c7 show ?thesis
    by (intro conjI)
qed

lemma peer_inv_p0: "peer_inv p0"
  by (simp add: peer_inv_def p0_def)

text \<open>
  The theorem of C2 for a peer that knows one address with id 0, on a list with a new
  address twice and the known one: the new address ends with id 2.
\<close>
theorem peerList_updatePeer_ids_witness:
  "peer_inv p0
   \<and> nextPeerId p0 + int (length [addrKey (Some ep2), addrKey (Some ep1), addrKey (Some ep2)])
       < 2 ^ 63
   \<and> dom (peerIds (peerList_updatePeer
         [addrKey (Some ep2), addrKey (Some ep1), addrKey (Some ep2)] p0))
       = {addrKey (Some ep1), addrKey (Some ep2)}
   \<and> peerIds (peerList_updatePeer
         [addrKey (Some ep2), addrKey (Some ep1), addrKey (Some ep2)] p0) (addrKey (Some ep1))
       = Some 0
   \<and> peerIds (peerList_updatePeer
         [addrKey (Some ep2), addrKey (Some ep1), addrKey (Some ep2)] p0) (addrKey (Some ep2))
       = Some 2
   \<and> peer_inv (peerList_updatePeer
         [addrKey (Some ep2), addrKey (Some ep1), addrKey (Some ep2)] p0)"
proof -
  let ?A = "[addrKey (Some ep2), addrKey (Some ep1), addrKey (Some ep2)]"
  have b: "nextPeerId p0 + int (length ?A) < 2 ^ 63"
    by (simp add: p0_def)
  note t = peerList_updatePeer_ids [OF peer_inv_p0 b]
  have g: "go_int 2 = 2" "go_int 3 = 3"
    by (simp_all add: go_int_def)
  have v: "peerIds (peerList_updatePeer ?A p0) (addrKey (Some ep1)) = Some 0"
    "peerIds (peerList_updatePeer ?A p0) (addrKey (Some ep2)) = Some 2"
    using ep1_ep2_keys ep1_ep2_keys [symmetric]
    by (simp_all add: peerList_updatePeer_def p0_def g)
  from t have d: "dom (peerIds (peerList_updatePeer ?A p0)) = {addrKey (Some ep1), addrKey (Some ep2)}"
    by auto
  from t have i: "peer_inv (peerList_updatePeer ?A p0)"
    by simp
  from peer_inv_p0 b d v i show ?thesis
    by (intro conjI)
qed

text \<open>
  The peer loop treats a datagram that does not decode as the server loop does: it logs
  a line and goes on, with its peer and its channels as before.
\<close>
lemma meshPeer_request_decode_error:
  "Decode (request_buffer rq) = Inl err \<Longrightarrow>
   meshPeer_request Decode (Value rq) st = st\<lparr>pr_log := pr_log st @ [''ignoring'']\<rparr>"
  by simp

lemma peer_inv_init: "peer_inv (pr_p (meshPeer_init :: 'd meshPeer_state))"
  by (simp add: peer_inv_def meshPeer_init_def)

text \<open>
  From the state before the loop, the ids ever taken from the counter are exactly those
  below it.
\<close>
lemma ever_assigned_init:
  assumes "p = pr_p (meshPeer_init :: 'd meshPeer_state)"
    and "int (length (concat As)) < 2 ^ 63"
  shows "ever_assigned p As = {0..<nextPeerId (peer_run p As)} \<and> peer_inv (peer_run p As)"
proof -
  have n: "nextPeerId p = 0" and i: "peer_inv p"
    using assms(1) by (simp_all add: meshPeer_init_def peer_inv_def)
  from ever_assigned_range [OF i, of As] assms(2) show ?thesis
    by (simp add: n)
qed

lemma peer_inv_timeout: "peer_inv (pr_p st) \<Longrightarrow> peer_inv (pr_p (meshPeer_timeout a st))"
  by (cases a) (simp_all add: peer_inv_def)

lemma peer_inv_ticker:
  "peer_inv (pr_p st) \<Longrightarrow> peer_inv (pr_p (meshPeer_ticker srv ks st))"
  by (simp add: meshPeer_ticker_def)

lemma peer_inv_broadcast:
  "peer_inv (pr_p st) \<Longrightarrow> peer_inv (pr_p (fst (meshPeer_broadcast srv ks b (st, h))))"
  by (cases b) (simp_all split: prod.splits)

lemma peer_inv_updatePeer:
  assumes "peer_inv p"
    and "\<And>A. m = peerList A \<Longrightarrow> nextPeerId p + int (length A) < 2 ^ 63"
  shows "peer_inv (fst (updatePeer m p frm))"
proof (cases m)
  case (peerList A)
  with assms show ?thesis
    by (simp add: peer_inv_peerList_updatePeer)
next
  case keepAlive
  with assms show ?thesis by simp
next
  case isAlive
  with assms show ?thesis by (simp add: peer_inv_def)
next
  case (dataRelayedFrom f d)
  with assms show ?thesis by (simp split: option.splits)
next
  case (dataDirect d)
  with assms show ?thesis by (simp split: option.splits)
qed

lemma destination_fan_out: "destination (fan_out_message srv p k cp) = Some k"
  by (simp add: destination_def fan_out_message_def addrKey_addrFromKey)

lemma payload_fan_out: "payload (fan_out_message srv p k cp) = Some cp"
  by (simp add: payload_def fan_out_message_def)

lemma make_copy_buf:
  "buf < length h \<Longrightarrow>
   copy_buf (length h) buf (h @ [replicate (length (h ! buf)) 0]) = h @ [h ! buf]"
  by (simp add: copy_buf_def nth_append copy_same_length)

lemma broadcast_loop_eq:
  "buf < length h \<Longrightarrow>
   broadcast_loop srv p buf ks h
     = (map (\<lambda>(k, cp). fan_out_message srv p k cp) (zip ks [length h..<length h + length ks]),
        h @ replicate (length ks) (h ! buf))"
proof (induction ks arbitrary: h)
  case Nil
  then show ?case by simp
next
  case (Cons k ks)
  let ?h = "h @ [h ! buf]"
  have b: "buf < length ?h" and n: "?h ! buf = h ! buf"
    using Cons.prems by (simp_all add: nth_append)
  have "[length h..<length h + Suc (length ks)]
      = length h # [Suc (length h)..<length h + Suc (length ks)]"
    by (rule upt_conv_Cons) simp
  then have u: "[length h..<length h + length (k # ks)]
      = length h # [length ?h..<length ?h + length ks]"
    by simp
  have ih: "broadcast_loop srv p buf ks ?h
     = (map (\<lambda>(k, cp). fan_out_message srv p k cp) (zip ks [length ?h..<length ?h + length ks]),
        ?h @ replicate (length ks) (h ! buf))"
    using Cons.IH [OF b] by (simp only: n)
  show ?case
    unfolding u
    by (simp add: make_def make_copy_buf [OF Cons.prems] ih fan_out_message_def)
qed

lemma filter_zip_absent:
  "k \<notin> set ks \<Longrightarrow> filter (\<lambda>(a, c). a = k) (zip ks idx) = []"
  by (auto simp add: filter_empty_conv dest: set_zip_leftD)

lemma filter_zip_present:
  "distinct ks \<Longrightarrow> length idx = length ks \<Longrightarrow> k \<in> set ks \<Longrightarrow>
   \<exists>c\<in>set idx. filter (\<lambda>(a, c). a = k) (zip ks idx) = [(k, c)]"
proof (induction ks arbitrary: idx)
  case Nil
  then show ?case by simp
next
  case (Cons a ks)
  then obtain c cs where idx: "idx = c # cs" and len: "length cs = length ks"
    by (cases idx) auto
  show ?case
  proof (cases "a = k")
    case True
    with Cons.prems have "k \<notin> set ks" by simp
    then have "filter (\<lambda>(a, c). a = k) (zip ks cs) = []"
      by (rule filter_zip_absent)
    with True idx show ?thesis by simp
  next
    case False
    with Cons.prems have "k \<in> set ks" and "distinct ks" by simp_all
    from Cons.IH [OF this(2) len this(1)] False idx show ?thesis by auto
  qed
qed

lemma map_snd_zip_fun:
  "length xs = length ys \<Longrightarrow> map (\<lambda>z. f (snd z)) (zip xs ys) = map f ys"
  by (induction xs ys rule: list_induct2) simp_all

text \<open>
  Claim C3. For a broadcast of the buffer \<open>buf\<close>, the loop sends, for every address \<open>k\<close>
  of \<^verbatim>\<open>peerIds\<close>, exactly one response meant for \<open>k\<close>: a \<^verbatim>\<open>dataDirect\<close> to the endpoint of
  \<open>k\<close> when \<open>k\<close> is alive, else a \<^verbatim>\<open>dataRelayTo\<close> with \<open>To = k\<close> to the server. Its payload
  is a buffer that did not exist before, with the bytes of \<open>buf\<close>. No response is meant
  for an address outside \<^verbatim>\<open>peerIds\<close>, every response is meant for one inside, no two
  responses share a buffer, and the buffers that existed are as before.
\<close>
theorem broadcast_fan_out:
  assumes buf: "buf < length h" and dist: "distinct ks"
    and ks: "set ks = dom (peerIds (pr_p st))"
  shows "\<exists>ms h'.
     meshPeer_broadcast srv ks (Value buf) (st, h)
       = (st\<lparr>pr_responses := pr_responses st @ ms\<rparr>, h')
     \<and> (\<forall>k\<in>dom (peerIds (pr_p st)). \<exists>cp.
           filter (\<lambda>m. destination m = Some k) ms
             = [if k \<in> alivePeers (pr_p st)
                then \<lparr>response_to = addrFromKey k, response_m = ToPeer (dataDirect cp)\<rparr>
                else \<lparr>response_to = srv, response_m = ToServer (dataRelayTo k cp)\<rparr>]
           \<and> length h \<le> cp \<and> cp < length h' \<and> h' ! cp = h ! buf)
     \<and> (\<forall>k. k \<notin> dom (peerIds (pr_p st)) \<longrightarrow> filter (\<lambda>m. destination m = Some k) ms = [])
     \<and> (\<forall>m\<in>set ms. \<exists>k\<in>dom (peerIds (pr_p st)). destination m = Some k)
     \<and> distinct (map payload ms)
     \<and> take (length h) h' = h"
proof -
  let ?p = "pr_p st"
  let ?idx = "[length h..<length h + length ks]"
  let ?f = "\<lambda>(k, cp). fan_out_message srv ?p k cp :: nat response"
  let ?ms = "map ?f (zip ks ?idx)"
  let ?h' = "h @ replicate (length ks) (h ! buf)"
  have run: "meshPeer_broadcast srv ks (Value buf) (st, h)
       = (st\<lparr>pr_responses := pr_responses st @ ?ms\<rparr>, ?h')"
    by (simp add: broadcast_loop_eq [OF buf])
  have flt: "\<And>k. filter (\<lambda>m. destination m = Some k) ?ms
      = map ?f (filter (\<lambda>(a, c). a = k) (zip ks ?idx))"
    by (simp add: filter_map comp_def case_prod_unfold destination_fan_out)
  have c1: "\<forall>k\<in>dom (peerIds ?p). \<exists>cp.
           filter (\<lambda>m. destination m = Some k) ?ms
             = [if k \<in> alivePeers ?p
                then \<lparr>response_to = addrFromKey k, response_m = ToPeer (dataDirect cp)\<rparr>
                else \<lparr>response_to = srv, response_m = ToServer (dataRelayTo k cp)\<rparr>]
           \<and> length h \<le> cp \<and> cp < length ?h' \<and> ?h' ! cp = h ! buf"
  proof
    fix k
    assume "k \<in> dom (peerIds ?p)"
    then have "k \<in> set ks" using ks by simp
    from filter_zip_present [OF dist _ this, of ?idx]
    obtain c where c: "c \<in> set ?idx"
      and f: "filter (\<lambda>(a, c). a = k) (zip ks ?idx) = [(k, c)]"
      by auto
    from c have lo: "length h \<le> c" and hi: "c < length h + length ks"
      by simp_all
    then have nth: "?h' ! c = h ! buf"
      by (simp add: nth_append)
    have "filter (\<lambda>m. destination m = Some k) ?ms = map ?f [(k, c)]"
      by (simp only: flt f)
    also have "\<dots> = [if k \<in> alivePeers ?p
           then \<lparr>response_to = addrFromKey k, response_m = ToPeer (dataDirect c)\<rparr>
           else \<lparr>response_to = srv, response_m = ToServer (dataRelayTo k c)\<rparr>]"
      by (simp add: fan_out_message_def)
    finally have "filter (\<lambda>m. destination m = Some k) ?ms
        = [if k \<in> alivePeers ?p
           then \<lparr>response_to = addrFromKey k, response_m = ToPeer (dataDirect c)\<rparr>
           else \<lparr>response_to = srv, response_m = ToServer (dataRelayTo k c)\<rparr>]" .
    with lo hi nth show "\<exists>cp.
           filter (\<lambda>m. destination m = Some k) ?ms
             = [if k \<in> alivePeers ?p
                then \<lparr>response_to = addrFromKey k, response_m = ToPeer (dataDirect cp)\<rparr>
                else \<lparr>response_to = srv, response_m = ToServer (dataRelayTo k cp)\<rparr>]
           \<and> length h \<le> cp \<and> cp < length ?h' \<and> ?h' ! cp = h ! buf"
      by (intro exI [of _ c]) simp
  qed
  have c2: "\<forall>k. k \<notin> dom (peerIds ?p) \<longrightarrow> filter (\<lambda>m. destination m = Some k) ?ms = []"
    using ks by (simp add: flt filter_zip_absent)
  have c3: "\<forall>m\<in>set ?ms. \<exists>k\<in>dom (peerIds ?p). destination m = Some k"
    using ks by (auto simp add: destination_fan_out dest: set_zip_leftD)
  have "map payload ?ms = map (\<lambda>z. Some (snd z)) (zip ks ?idx)"
    by (simp add: comp_def case_prod_unfold payload_fan_out)
  also have "\<dots> = map Some ?idx"
    by (rule map_snd_zip_fun) simp
  finally have c4: "distinct (map payload ?ms)"
    by (simp add: distinct_map)
  have c5: "take (length h) ?h' = h"
    by simp
  from run c1 c2 c3 c4 c5 show ?thesis
    by blast
qed

text \<open>
  The theorem of C3 for a peer that knows two addresses, the first of them alive, and a
  buffer of four bytes.
\<close>
theorem broadcast_fan_out_witness:
  "0 < length h0
   \<and> distinct [addrKey (Some ep2), addrKey (Some ep1)]
   \<and> set [addrKey (Some ep2), addrKey (Some ep1)] = dom (peerIds (pr_p st0))
   \<and> meshPeer_broadcast (Some ep_server) [addrKey (Some ep2), addrKey (Some ep1)] (Value 0)
        (st0, h0)
      = (st0\<lparr>pr_responses :=
            [\<lparr>response_to = Some ep_server,
              response_m = ToServer (dataRelayTo (addrKey (Some ep2)) 1)\<rparr>,
             \<lparr>response_to = addrFromKey (addrKey (Some ep1)),
              response_m = ToPeer (dataDirect 2)\<rparr>]\<rparr>,
         [[0xDE, 0xAD, 0xBE, 0xEF], [0xDE, 0xAD, 0xBE, 0xEF], [0xDE, 0xAD, 0xBE, 0xEF]])
   \<and> (\<exists>ms h'.
        meshPeer_broadcast (Some ep_server) [addrKey (Some ep2), addrKey (Some ep1)] (Value 0)
          (st0, h0) = (st0\<lparr>pr_responses := pr_responses st0 @ ms\<rparr>, h')
        \<and> filter (\<lambda>m. destination m = Some (addrKey (Some ep_server))) ms = []
        \<and> distinct (map payload ms)
        \<and> take (length h0) h' = h0)"
proof -
  let ?ks = "[addrKey (Some ep2), addrKey (Some ep1)]"
  have b: "0 < length h0"
    by (simp add: h0_def)
  have d: "distinct ?ks"
    using ep1_ep2_keys by auto
  have s: "set ?ks = dom (peerIds (pr_p st0))"
    by (auto simp add: st0_def)
  have u: "[Suc 0..<3] = [1, 2]"
    by (simp add: upt_rec)
  have r: "replicate 2 x = [x, x]" for x :: bytes
    by (simp add: numeral_2_eq_2)
  have l: "broadcast_loop (Some ep_server) (pr_p st0) 0 ?ks h0
      = ([\<lparr>response_to = Some ep_server,
              response_m = ToServer (dataRelayTo (addrKey (Some ep2)) 1)\<rparr>,
          \<lparr>response_to = addrFromKey (addrKey (Some ep1)),
              response_m = ToPeer (dataDirect 2)\<rparr>],
         [[0xDE, 0xAD, 0xBE, 0xEF], [0xDE, 0xAD, 0xBE, 0xEF], [0xDE, 0xAD, 0xBE, 0xEF]])"
    using ep1_ep2_keys
    by (subst broadcast_loop_eq [OF b])
      (simp add: u r fan_out_message_def h0_def st0_def meshPeer_init_def)
  have e: "pr_responses st0 = []"
    by (simp add: st0_def meshPeer_init_def)
  have run: "meshPeer_broadcast (Some ep_server) ?ks (Value 0) (st0, h0)
      = (st0\<lparr>pr_responses :=
            [\<lparr>response_to = Some ep_server,
              response_m = ToServer (dataRelayTo (addrKey (Some ep2)) 1)\<rparr>,
             \<lparr>response_to = addrFromKey (addrKey (Some ep1)),
              response_m = ToPeer (dataDirect 2)\<rparr>]\<rparr>,
         [[0xDE, 0xAD, 0xBE, 0xEF], [0xDE, 0xAD, 0xBE, 0xEF], [0xDE, 0xAD, 0xBE, 0xEF]])"
    by (simp only: meshPeer_broadcast.simps l prod.case e append_Nil)
  have n: "addrKey (Some ep_server) \<notin> dom (peerIds (pr_p st0))"
    by (simp add: st0_def addrKey_eq_iff ep_server_def ep1_def ep2_def UDPAddr_AddrPort_def
        AddrPortFrom_def AddrFromSlice_def WithZone_def As16_def)
  from broadcast_fan_out [OF b d s, of "Some ep_server"] n
  have "\<exists>ms h'.
        meshPeer_broadcast (Some ep_server) ?ks (Value 0) (st0, h0)
          = (st0\<lparr>pr_responses := pr_responses st0 @ ms\<rparr>, h')
        \<and> filter (\<lambda>m. destination m = Some (addrKey (Some ep_server))) ms = []
        \<and> distinct (map payload ms)
        \<and> take (length h0) h' = h0"
    by blast
  with b d s run show ?thesis
    by (intro conjI)
qed

end
